theory Spec2Isabelle
  imports Main "HOL-Library.Word"
begin

unbundle bit_operations_syntax

section \<open>Machine types and error numbers\<close>

type_synonym u8 = "8 word"
type_synonym u16 = "16 word"
type_synonym u32 = "32 word"
type_synonym u64 = "64 word"

text \<open>The errno values of the Linux kernel that the two modules return negated.\<close>

definition EPERM :: int where "EPERM = 1"
definition ENOMEM :: int where "ENOMEM = 12"
definition EACCES :: int where "EACCES = 13"
definition EINVAL :: int where "EINVAL = 22"

section \<open>Descriptor validator (consortium/sam-mitchell/kernel-development/tcp_kernel_module.c)\<close>

definition TCP_MAGIC_CLASSICAL :: u32 where "TCP_MAGIC_CLASSICAL = 0x50435402"
definition TCP_MAGIC_QUANTUM :: u32 where "TCP_MAGIC_QUANTUM = 0x51504354"

definition TCP_HW_LSM :: u32 where "TCP_HW_LSM = 1"
definition TCP_HW_EBPF :: u32 where "TCP_HW_EBPF = 2"
definition TCP_HW_PMU :: u32 where "TCP_HW_PMU = 4"
definition TCP_HW_TPM :: u32 where "TCP_HW_TPM = 8"
definition TCP_HW_SGX :: u32 where "TCP_HW_SGX = 16"
definition TCP_HW_CET :: u32 where "TCP_HW_CET = 32"
definition TCP_HW_PT :: u32 where "TCP_HW_PT = 64"
definition TCP_HW_MPK :: u32 where "TCP_HW_MPK = 128"

definition TCP_CACHE_SIZE :: nat where "TCP_CACHE_SIZE = 10000"

subsection \<open>Reading the packed structs out of the caller's buffer\<close>

text \<open>
  A descriptor arrives as \<open>const void *descriptor, size_t len\<close>; the model is the list of
  its \<open>len\<close> bytes. The module is x86 code (it tests \<open>X86_FEATURE_*\<close>), so the fields of
  the \<open>__packed\<close> structs are little-endian at the offsets the declarations give:

  \<^item> \<open>tcp_classical_descriptor\<close>: magic 0..3, command_hash 4..7, security_flags 8..11,
    performance_data 12..17, reserved 18..19, checksum 20..21 (the struct is 22 bytes);
  \<^item> \<open>tcp_quantum_descriptor\<close>: magic 0..3, version 4, command_hash 5..8,
    security_flags 9..12, performance_data 13..18, pqc_signature 19..29, reserved 30..31.
\<close>

definition get_u16 :: "u8 list \<Rightarrow> nat \<Rightarrow> u16" where
  "get_u16 d off = ucast (d ! off) OR push_bit 8 (ucast (d ! (off + 1)))"

definition get_u32 :: "u8 list \<Rightarrow> nat \<Rightarrow> u32" where
  "get_u32 d off =
     ucast (d ! off) OR push_bit 8 (ucast (d ! (off + 1)))
       OR push_bit 16 (ucast (d ! (off + 2))) OR push_bit 24 (ucast (d ! (off + 3)))"

definition classical_magic :: "u8 list \<Rightarrow> u32" where
  "classical_magic d = get_u32 d 0"

definition classical_security_flags :: "u8 list \<Rightarrow> u32" where
  "classical_security_flags d = get_u32 d 8"

definition classical_checksum :: "u8 list \<Rightarrow> u16" where
  "classical_checksum d = get_u16 d 20"

definition quantum_magic :: "u8 list \<Rightarrow> u32" where
  "quantum_magic d = get_u32 d 0"

definition quantum_version :: "u8 list \<Rightarrow> u8" where
  "quantum_version d = d ! 4"

definition quantum_security_flags :: "u8 list \<Rightarrow> u32" where
  "quantum_security_flags d = get_u32 d 9"

subsection \<open>What the kernel provides\<close>

text \<open>
  The kernel's crypto API is not part of the repository. \<open>crypto_alloc_shash\<close> may fail
  (\<open>None\<close>); an allocated "sha256" transform maps the bytes to its digest, and an allocated
  "crc32" transform either fails (\<open>err \<noteq> 0\<close>, \<open>None\<close>) or writes the 32-bit value.
  Both allocations are made afresh in every evaluation, so a \<open>crypto_env\<close> is what one
  evaluation meets, and two evaluations may meet different ones.
\<close>

record crypto_env =
  sha256_shash :: "(u8 list \<Rightarrow> u8 list) option"
  crc32_shash :: "(u8 list \<Rightarrow> u32 option) option"

text \<open>The three readings of \<open>ktime_get_ns()\<close> that one evaluation may make.\<close>

record ktimes =
  start_time :: u64
  store_time :: u64
  end_time :: u64

subsection \<open>The module's state\<close>

record tcp_validation_context =
  hardware_features :: u32
  ctx_security_level :: u8
  validation_count :: u64
  cache_hits :: u64
  security_violations :: u64
  total_time_ns :: u64

record tcp_cache_entry =
  descriptor_hash :: "u8 list"
  validation_result :: u8
  timestamp :: u64

record tcp_module =
  tcp_ctx :: tcp_validation_context
  tcp_cache :: "tcp_cache_entry list"
  tcp_cache_head :: u32

text \<open>\<open>kcalloc\<close> hands out zeroed entries.\<close>

definition zero_entry :: tcp_cache_entry where
  "zero_entry = \<lparr>descriptor_hash = replicate 8 0, validation_result = 0, timestamp = 0\<rparr>"

text \<open>
  The state \<open>tcp_kernel_init\<close> leaves behind when it returns 0; \<open>hw\<close> is what
  \<open>tcp_detect_hardware_features\<close> found.
\<close>

definition tcp_loaded :: "u32 \<Rightarrow> tcp_module" where
  "tcp_loaded hw =
     \<lparr>tcp_ctx = \<lparr>hardware_features = hw, ctx_security_level = 1, validation_count = 0,
                  cache_hits = 0, security_violations = 0, total_time_ns = 0\<rparr>,
      tcp_cache = replicate TCP_CACHE_SIZE zero_entry,
      tcp_cache_head = 0\<rparr>"

definition tcp_kernel_init :: "u32 \<Rightarrow> bool \<Rightarrow> bool \<Rightarrow> int + tcp_module" where
  "tcp_kernel_init hw cache_allocated proc_created =
     (if \<not> cache_allocated then Inl (- ENOMEM)
      else if \<not> proc_created then Inl (- ENOMEM)
      else Inr (tcp_loaded hw))"

subsection \<open>The validation cache\<close>

text \<open>\<open>memcmp(entry->descriptor_hash, descriptor_hash, 8) == 0\<close>\<close>

definition hash_matches :: "tcp_cache_entry \<Rightarrow> u8 list \<Rightarrow> bool" where
  "hash_matches entry h \<longleftrightarrow> take 8 (descriptor_hash entry) = take 8 h"

fun cache_scan :: "tcp_cache_entry list \<Rightarrow> u8 list \<Rightarrow> u8 option" where
  "cache_scan [] h = None"
| "cache_scan (entry # rest) h =
     (if hash_matches entry h then Some (validation_result entry) else cache_scan rest h)"

text \<open>The loop runs over the indices \<open>0 \<le> i < TCP_CACHE_SIZE\<close>; \<open>None\<close> is the return 0.\<close>

definition tcp_cache_lookup :: "tcp_cache_entry list \<Rightarrow> u8 list \<Rightarrow> u8 option" where
  "tcp_cache_lookup cache h = cache_scan (take TCP_CACHE_SIZE cache) h"

definition tcp_cache_store :: "u64 \<Rightarrow> tcp_module \<Rightarrow> u8 list \<Rightarrow> u8 \<Rightarrow> tcp_module" where
  "tcp_cache_store now st h result =
     st\<lparr>tcp_cache := (tcp_cache st)[unat (tcp_cache_head st) :=
            \<lparr>descriptor_hash = take 8 h, validation_result = result,
             timestamp = now\<rparr>],
        tcp_cache_head := (tcp_cache_head st + 1) mod of_nat TCP_CACHE_SIZE\<rparr>"

subsection \<open>Checksum and fingerprint\<close>

fun sum_bytes :: "u32 \<Rightarrow> u8 list \<Rightarrow> u32" where
  "sum_bytes crc [] = crc"
| "sum_bytes crc (b # bs) = sum_bytes (crc + ucast b) bs"

definition tcp_hardware_crc16 :: "crypto_env \<Rightarrow> u8 list \<Rightarrow> nat \<Rightarrow> u16" where
  "tcp_hardware_crc16 env data len =
     (case crc32_shash env of
        None \<Rightarrow> ucast (sum_bytes 0 (take len data) AND 0xFFFF)
      | Some digest \<Rightarrow>
          (case digest (take len data) of
             None \<Rightarrow> 0
           | Some crc \<Rightarrow> ucast (crc AND 0xFFFF)))"

text \<open>
  The block that fills the local \<open>descriptor_hash\<close>: the first 8 bytes of the SHA-256
  digest, or, without the transform, the first \<open>min(len, 8)\<close> bytes of the descriptor
  over 8 zero bytes.
\<close>

definition compute_descriptor_hash :: "crypto_env \<Rightarrow> u8 list \<Rightarrow> u8 list" where
  "compute_descriptor_hash env d =
     (case sha256_shash env of
        Some digest \<Rightarrow> take 8 (digest d)
      | None \<Rightarrow> take (min (length d) 8) d @ replicate (8 - min (length d) 8) 0)"

subsection \<open>The gates\<close>

definition tcp_ebpf_security_check :: "u8 list \<Rightarrow> int" where
  "tcp_ebpf_security_check d = (if length d = 24 \<or> length d = 32 then 1 else 0)"

definition tcp_lsm_security_check :: "u8 list \<Rightarrow> int" where
  "tcp_lsm_security_check d =
     (if length d = 24 then (if classical_security_flags d AND 0x0001 \<noteq> 0 then 0 else 1)
      else 1)"

definition tcp_sgx_validation :: "tcp_validation_context \<Rightarrow> u8 list \<Rightarrow> int" where
  "tcp_sgx_validation ctx d = (if hardware_features ctx AND TCP_HW_SGX = 0 then 1 else 1)"

definition tcp_tpm_attestation :: "tcp_validation_context \<Rightarrow> u8 list \<Rightarrow> int" where
  "tcp_tpm_attestation ctx d = (if hardware_features ctx AND TCP_HW_TPM = 0 then 1 else 1)"

subsection \<open>Core validation\<close>

text \<open>The four calls under "Hardware security checks", each \<open>goto out\<close> ending the chain.\<close>

definition hardware_security_checks :: "tcp_validation_context \<Rightarrow> u8 list \<Rightarrow> int" where
  "hardware_security_checks ctx d =
     (if tcp_lsm_security_check d = 0 then - EACCES
      else if tcp_ebpf_security_check d = 0 then - EACCES
      else if tcp_sgx_validation ctx d = 0 then - EACCES
      else if tcp_tpm_attestation ctx d = 0 then - EACCES
      else 1)"

text \<open>
  The value of \<open>result\<close> when control reaches the label \<open>out\<close> on a cache miss: the
  format validation by length, then the hardware security checks.
\<close>

definition validation_outcome :: "crypto_env \<Rightarrow> tcp_validation_context \<Rightarrow> u8 list \<Rightarrow> int" where
  "validation_outcome env ctx d =
     (if length d = 24 then
        (if classical_magic d \<noteq> TCP_MAGIC_CLASSICAL then - EINVAL
         else if tcp_hardware_crc16 env d 22 \<noteq> classical_checksum d then - EINVAL
         else hardware_security_checks ctx d)
      else if length d = 32 then
        (if quantum_magic d \<noteq> TCP_MAGIC_QUANTUM then - EINVAL
         else if quantum_version d < 3 then - EINVAL
         else hardware_security_checks ctx d)
      else - EINVAL)"

text \<open>The statistics update after the label \<open>out\<close>.\<close>

definition update_statistics :: "ktimes \<Rightarrow> int \<Rightarrow> tcp_validation_context \<Rightarrow> tcp_validation_context" where
  "update_statistics tm result ctx =
     ctx\<lparr>validation_count := validation_count ctx + 1,
         total_time_ns := total_time_ns ctx + (end_time tm - start_time tm),
         security_violations :=
           (if result \<le> 0 then security_violations ctx + 1 else security_violations ctx)\<rparr>"

definition tcp_validate_descriptor_kernel ::
  "crypto_env \<Rightarrow> ktimes \<Rightarrow> tcp_module \<Rightarrow> u8 list \<Rightarrow> int \<times> tcp_module" where
  "tcp_validate_descriptor_kernel env tm st d =
     (let h = compute_descriptor_hash env d in
      case tcp_cache_lookup (tcp_cache st) h of
        Some cached_result \<Rightarrow>
          (uint cached_result, st\<lparr>tcp_ctx := (tcp_ctx st)\<lparr>cache_hits := cache_hits
              (tcp_ctx st) + 1\<rparr>\<rparr>)
      | None \<Rightarrow>
          (let result = validation_outcome env (tcp_ctx st) d;
               st1 = tcp_cache_store (store_time tm) st h (if result > 0 then 1 else 0)
           in (result, st1\<lparr>tcp_ctx := update_statistics tm result (tcp_ctx st1)\<rparr>)))"

subsection \<open>The statistics report\<close>

text \<open>
  \<open>tcp_proc_show\<close> prints the counters and two derived numbers. A 64-bit division by zero
  faults in the kernel; \<open>u64_div\<close> makes the fault a value.
\<close>

definition u64_div :: "u64 \<Rightarrow> u64 \<Rightarrow> u64 option" where
  "u64_div a b = (if b = 0 then None else Some (a div b))"

record proc_report =
  shown_hardware_features :: u32
  shown_security_level :: u8
  shown_validation_count :: u64
  shown_cache_hits :: u64
  shown_cache_hit_rate :: u64
  shown_security_violations :: u64
  shown_avg_time_ns :: u64

definition tcp_proc_show :: "tcp_validation_context \<Rightarrow> proc_report option" where
  "tcp_proc_show ctx =
     (case (if validation_count ctx > 0 then u64_div (total_time_ns ctx) (validation_count ctx)
            else Some 0) of
        None \<Rightarrow> None
      | Some avg_time \<Rightarrow>
          (case (if validation_count ctx > 0
                 then u64_div (cache_hits ctx * 100) (validation_count ctx)
                 else Some 0) of
             None \<Rightarrow> None
           | Some hit_rate \<Rightarrow>
               Some \<lparr>shown_hardware_features = hardware_features ctx,
                     shown_security_level = ctx_security_level ctx,
                     shown_validation_count = validation_count ctx,
                     shown_cache_hits = cache_hits ctx,
                     shown_cache_hit_rate = hit_rate,
                     shown_security_violations = security_violations ctx,
                     shown_avg_time_ns = avg_time\<rparr>))"

subsection \<open>Sequences of calls\<close>

fun store_all :: "tcp_module \<Rightarrow> (u8 list \<times> u8 \<times> u64) list \<Rightarrow> tcp_module" where
  "store_all st [] = st"
| "store_all st ((h, result, now) # rest) = store_all (tcp_cache_store now st h result) rest"

text \<open>
  A history of evaluations. Each one comes with the outcome of its own crypto allocations,
  its own clock readings and its own buffer.
\<close>

fun validate_all :: "tcp_module \<Rightarrow> (crypto_env \<times> ktimes \<times> u8 list) list \<Rightarrow> tcp_module" where
  "validate_all st [] = st"
| "validate_all st ((env, tm, d) # rest) =
     validate_all (snd (tcp_validate_descriptor_kernel env tm st d)) rest"

section \<open>Syscall monitor (kernel/tcp_kernel_module.c)\<close>

record tcp_kernel_descriptor =
  syscall_nr :: int
  security_flags :: u16
  context_mask :: u8
  privilege_level :: u8
  pattern :: string
  checksum :: u32

definition TCP_FLAG_SAFE :: u16 where "TCP_FLAG_SAFE = 0x0001"
definition TCP_FLAG_DESTRUCTIVE :: u16 where "TCP_FLAG_DESTRUCTIVE = 0x0002"
definition TCP_FLAG_FILESYSTEM :: u16 where "TCP_FLAG_FILESYSTEM = 0x0004"
definition TCP_FLAG_NETWORK :: u16 where "TCP_FLAG_NETWORK = 0x0008"
definition TCP_FLAG_EXECUTION :: u16 where "TCP_FLAG_EXECUTION = 0x0010"
definition TCP_FLAG_CRITICAL :: u16 where "TCP_FLAG_CRITICAL = 0x0020"
definition TCP_FLAG_KERNEL :: u16 where "TCP_FLAG_KERNEL = 0x0040"
definition TCP_FLAG_PRIVESC :: u16 where "TCP_FLAG_PRIVESC = 0x0080"

definition TCP_CTX_USER :: u8 where "TCP_CTX_USER = 0x01"
definition TCP_CTX_ADMIN :: u8 where "TCP_CTX_ADMIN = 0x02"
definition TCP_CTX_KERNEL :: u8 where "TCP_CTX_KERNEL = 0x04"
definition TCP_CTX_CONTAINER :: u8 where "TCP_CTX_CONTAINER = 0x08"
definition TCP_CTX_ALL :: u8 where "TCP_CTX_ALL = 0xFF"

definition TCP_PRIV_USER :: u8 where "TCP_PRIV_USER = 0"
definition TCP_PRIV_ROOT :: u8 where "TCP_PRIV_ROOT = 1"
definition TCP_PRIV_KERNEL :: u8 where "TCP_PRIV_KERNEL = 2"

record tcp_stats =
  total_checks :: u64
  fast_path_hits :: u64
  blocked_operations :: u64
  security_events :: u64
  false_positives :: u64

record tcp_kernel_state =
  enabled :: bool
  security_level :: int
  stats :: tcp_stats

text \<open>
  The numbers \<open>__NR_unlink\<close>, \<open>__NR_execve\<close>, \<open>__NR_init_module\<close> and \<open>__NR_getpid\<close>
  come from the kernel's headers, not from the repository: they are a parameter of the
  table. \<open>x86_64_syscalls\<close> holds the values of the x86-64 system call table, the
  architecture the probe on \<open>do_syscall_64\<close> is written for.
\<close>

record syscall_numbers =
  NR_unlink :: int
  NR_execve :: int
  NR_init_module :: int
  NR_getpid :: int

definition x86_64_syscalls :: syscall_numbers where
  "x86_64_syscalls = \<lparr>NR_unlink = 87, NR_execve = 59, NR_init_module = 175, NR_getpid = 39\<rparr>"

definition tcp_descriptors :: "syscall_numbers \<Rightarrow> tcp_kernel_descriptor list" where
  "tcp_descriptors nrs =
     [\<lparr>syscall_nr = NR_unlink nrs,
       security_flags = TCP_FLAG_DESTRUCTIVE OR TCP_FLAG_FILESYSTEM,
       context_mask = TCP_CTX_USER OR TCP_CTX_ADMIN,
       privilege_level = TCP_PRIV_USER,
       pattern = ''file_deletion'',
       checksum = 0x1A2B3C4D\<rparr>,
      \<lparr>syscall_nr = NR_execve nrs,
       security_flags = TCP_FLAG_EXECUTION OR TCP_FLAG_CRITICAL,
       context_mask = TCP_CTX_ALL,
       privilege_level = TCP_PRIV_USER,
       pattern = ''program_exec'',
       checksum = 0x5E6F7890\<rparr>,
      \<lparr>syscall_nr = NR_init_module nrs,
       security_flags = TCP_FLAG_CRITICAL OR TCP_FLAG_KERNEL OR TCP_FLAG_DESTRUCTIVE,
       context_mask = TCP_CTX_ADMIN OR TCP_CTX_KERNEL,
       privilege_level = TCP_PRIV_ROOT,
       pattern = ''module_load'',
       checksum = 0x9ABC1234\<rparr>,
      \<lparr>syscall_nr = NR_getpid nrs,
       security_flags = TCP_FLAG_SAFE,
       context_mask = TCP_CTX_ALL,
       privilege_level = TCP_PRIV_USER,
       pattern = ''pid_query'',
       checksum = 0xDEF56789\<rparr>]"

fun find_in_table :: "tcp_kernel_descriptor list \<Rightarrow> int \<Rightarrow> tcp_kernel_descriptor option" where
  "find_in_table [] nr = None"
| "find_in_table (desc # rest) nr =
     (if syscall_nr desc = nr then Some desc else find_in_table rest nr)"

definition tcp_find_descriptor :: "syscall_numbers \<Rightarrow> int \<Rightarrow> tcp_kernel_descriptor option" where
  "tcp_find_descriptor nrs nr = find_in_table (tcp_descriptors nrs) nr"

text \<open>
  What the code reads of \<open>current\<close>: \<open>current->cred->uid.val\<close> and whether
  \<open>current->nsproxy\<close> is \<open>&init_nsproxy\<close>.
\<close>

record task =
  uid_val :: u32
  nsproxy_is_init :: bool

definition tcp_check_context :: "task \<Rightarrow> tcp_kernel_descriptor \<Rightarrow> bool" where
  "tcp_check_context cur desc =
     (let identity = (if uid_val cur = 0 then 0 OR TCP_CTX_ADMIN else 0 OR TCP_CTX_USER);
          current_context =
            (if \<not> nsproxy_is_init cur then identity OR TCP_CTX_CONTAINER else identity)
      in context_mask desc AND current_context \<noteq> 0)"

text \<open>\<open>syscall_nr = regs->orig_ax\<close>: an unsigned long stored into an int.\<close>

definition regs_syscall_nr :: "u64 \<Rightarrow> int" where
  "regs_syscall_nr orig_ax = sint (ucast orig_ax :: 32 word)"

definition count_total_check :: "tcp_kernel_state \<Rightarrow> tcp_kernel_state" where
  "count_total_check st = st\<lparr>stats := (stats st)\<lparr>total_checks := total_checks (stats st) + 1\<rparr>\<rparr>"

definition count_fast_path_hit :: "tcp_kernel_state \<Rightarrow> tcp_kernel_state" where
  "count_fast_path_hit st = st\<lparr>stats := (stats st)\<lparr>fast_path_hits := fast_path_hits (stats st) + 1\<rparr>\<rparr>"

definition count_blocked_operation :: "tcp_kernel_state \<Rightarrow> tcp_kernel_state" where
  "count_blocked_operation st =
     st\<lparr>stats := (stats st)\<lparr>blocked_operations := blocked_operations (stats st) + 1\<rparr>\<rparr>"

definition count_security_event :: "tcp_kernel_state \<Rightarrow> tcp_kernel_state" where
  "count_security_event st =
     st\<lparr>stats := (stats st)\<lparr>security_events := security_events (stats st) + 1\<rparr>\<rparr>"

text \<open>The messages of \<open>pr_warn\<close> and \<open>pr_info\<close> are not modelled; the counters are.\<close>

definition tcp_analyze_syscall ::
  "syscall_numbers \<Rightarrow> tcp_kernel_state \<Rightarrow> task \<Rightarrow> u64 \<Rightarrow> int \<times> tcp_kernel_state" where
  "tcp_analyze_syscall nrs st cur orig_ax =
     (if \<not> enabled st then (0, st)
      else
        let nr = regs_syscall_nr orig_ax;
            st1 = count_total_check st
        in case tcp_find_descriptor nrs nr of
             None \<Rightarrow> (0, count_fast_path_hit st1)
           | Some desc \<Rightarrow>
               if security_flags desc AND TCP_FLAG_SAFE \<noteq> 0 then (0, count_fast_path_hit st1)
               else if \<not> tcp_check_context cur desc then (- EPERM, count_blocked_operation st1)
               else
                 let critical = (security_flags desc AND TCP_FLAG_CRITICAL \<noteq> 0);
                     st2 = (if critical then count_security_event st1 else st1)
                 in if critical \<and> security_level st \<ge> 2 \<and> uid_val cur \<noteq> 0
                    then (- EPERM, count_blocked_operation st2)
                    else if security_flags desc AND TCP_FLAG_DESTRUCTIVE \<noteq> 0
                    then (0, count_security_event st2)
                    else (0, st2))"

text \<open>The state of the monitor when its \<open>tcp_kernel_init\<close> has returned 0.\<close>

definition tcp_state_loaded :: tcp_kernel_state where
  "tcp_state_loaded =
     \<lparr>enabled = True, security_level = 1,
      stats = \<lparr>total_checks = 0, fast_path_hits = 0, blocked_operations = 0,
               security_events = 0, false_positives = 0\<rparr>\<rparr>"

section \<open>Invariants and auxiliary notions\<close>

text \<open>
  The ring is an array of \<open>TCP_CACHE_SIZE\<close> entries and the head an index into it:
  what \<open>tcp_kernel_init\<close> sets up and every store keeps.
\<close>

definition cache_ok :: "tcp_module \<Rightarrow> bool" where
  "cache_ok st \<longleftrightarrow> length (tcp_cache st) = TCP_CACHE_SIZE \<and> unat (tcp_cache_head st) < TCP_CACHE_SIZE"

text \<open>
  Every cached decision byte is 0 or 1.
\<close>

definition decisions_binary :: "tcp_module \<Rightarrow> bool" where
  "decisions_binary st \<longleftrightarrow> (\<forall>e\<in>set (tcp_cache st). validation_result e = 0 \<or> validation_result e = 1)"

text \<open>
  The entry that \<open>tcp_cache_store\<close> writes for a fingerprint, a result byte and a timestamp.
\<close>

definition entry_of :: "u8 list \<times> u8 \<times> u64 \<Rightarrow> tcp_cache_entry" where
  "entry_of x = (case x of (h, result, now) \<Rightarrow>
      \<lparr>descriptor_hash = take 8 h, validation_result = result, timestamp = now\<rparr>)"

text \<open>
  Every cached entry that matches the fingerprint \<open>h\<close> holds the decision 0.
\<close>

definition denies_fingerprint :: "u8 list \<Rightarrow> tcp_module \<Rightarrow> bool" where
  "denies_fingerprint h st \<longleftrightarrow>
     (\<forall>e\<in>set (tcp_cache st). hash_matches e h \<longrightarrow> validation_result e = 0)"

text \<open>
  What an evaluation that misses the cache stores: the fingerprint, the decision byte and
  the time of the store. (The outcome does not depend on the context: see
  \<open>validation_outcome_ctx\<close> below.)
\<close>

definition op_store ::
  "tcp_validation_context \<Rightarrow> crypto_env \<times> ktimes \<times> u8 list \<Rightarrow> u8 list \<times> u8 \<times> u64" where
  "op_store ctx op =
     (compute_descriptor_hash (fst op) (snd (snd op)),
      if validation_outcome (fst op) ctx (snd (snd op)) > 0 then 1 else 0,
      store_time (fst (snd op)))"

section \<open>Concrete inputs\<close>

text \<open>
  An evaluation in which neither \<open>crypto_alloc_shash("sha256", 0, 0)\<close> nor
  \<open>crypto_alloc_shash("crc32", 0, 0)\<close> succeeds: the code then takes its two fallback
  branches, the fingerprint being the first 8 bytes of the descriptor and the checksum the
  sum of the bytes.
\<close>

definition no_crypto :: crypto_env where
  "no_crypto = \<lparr>sha256_shash = None, crc32_shash = None\<rparr>"

text \<open>
  An evaluation in which the "crc32" transform is allocated and its digest call returns an
  error, the "sha256" transform not being available.
\<close>

definition crc_failing :: crypto_env where
  "crc_failing = \<lparr>sha256_shash = None, crc32_shash = Some (\<lambda>d. None)\<rparr>"

text \<open>
  An evaluation in which \<open>crypto_alloc_shash("sha256", 0, 0)\<close> succeeds. The examples
  fingerprint two buffers with it, the bytes 01 02 03 and the bytes 02 54 43 50 00 00 00 00;
  \<open>sha256_table\<close> holds the SHA-256 digests of these two and 32 zero bytes for every
  other buffer, which the examples never hash.
\<close>

definition sha256_table :: "u8 list \<Rightarrow> u8 list" where
  "sha256_table d =
     (if d = [0x01, 0x02, 0x03] then
        [0x03, 0x90, 0x58, 0xC6, 0xF2, 0xC0, 0xCB, 0x49, 0x2C, 0x53, 0x3B, 0x0A, 0x4D, 0x14, 0xEF,
         0x77, 0xCC, 0x0F, 0x78, 0xAB, 0xCC, 0xCE, 0xD5, 0x28, 0x7D, 0x84, 0xA1, 0xA2, 0x01, 0x1C,
         0xFB, 0x81]
      else if d = [0x02, 0x54, 0x43, 0x50, 0, 0, 0, 0] then
        [0xBD, 0x65, 0xCE, 0x3F, 0x61, 0xE1, 0x4B, 0x35, 0x60, 0xDB, 0x73, 0x6E, 0xB1, 0xBE, 0x09,
         0xCF, 0xC5, 0x7E, 0x93, 0x8C, 0x42, 0xC1, 0x55, 0x7A, 0x8D, 0xED, 0x2B, 0x6C, 0x5E, 0x75,
         0x7E, 0x8E]
      else replicate 32 0)"

definition sha_crypto :: crypto_env where
  "sha_crypto = \<lparr>sha256_shash = Some sha256_table, crc32_shash = None\<rparr>"

text \<open>
  The features that \<open>tcp_detect_hardware_features\<close> always reports.
\<close>

definition basic_hw :: u32 where
  "basic_hw = TCP_HW_LSM OR TCP_HW_EBPF OR TCP_HW_PMU"

definition first_call :: ktimes where
  "first_call = \<lparr>start_time = 1000, store_time = 1040, end_time = 1100\<rparr>"

definition second_call :: ktimes where
  "second_call = \<lparr>start_time = 2000, store_time = 2040, end_time = 2100\<rparr>"

definition third_call :: ktimes where
  "third_call = \<lparr>start_time = 3000, store_time = 3040, end_time = 3100\<rparr>"

text \<open>
  A 24-byte Classical descriptor that passes the format checks: magic 02 54 43 50 (the
  little-endian bytes of \<open>0x50435402\<close>), command hash 0, security flags \<open>0x00000002\<close>,
  performance data 20 0 0 0 0 0, reserved 0, checksum bytes 00 01. The first 22 bytes sum
  to 2 + 84 + 67 + 80 + 2 + 20 + 0 + 1 = 256, the value of the checksum field.
\<close>

definition classical_example :: "u8 list" where
  "classical_example =
     [0x02, 0x54, 0x43, 0x50,  0, 0, 0, 0,  0x02, 0, 0, 0,  20, 0, 0, 0, 0, 0,  0, 0,  0x00, 0x01,
      0, 0]"

text \<open>
  The same with security flags \<open>0x00000003\<close> and performance data 19 0 0 0 0 0.
\<close>

definition classical_low_bit_example :: "u8 list" where
  "classical_low_bit_example =
     [0x02, 0x54, 0x43, 0x50,  0, 0, 0, 0,  0x03, 0, 0, 0,  19, 0, 0, 0, 0, 0,  0, 0,  0x00, 0x01,
      0, 0]"

text \<open>
  A 32-byte Quantum descriptor: magic 54 43 50 51, version 3, command hash 0, security
  flags \<open>0x00000003\<close>; and one with version 2 and flags 0.
\<close>

definition quantum_example :: "u8 list" where
  "quantum_example =
     [0x54, 0x43, 0x50, 0x51,  3,  0, 0, 0, 0,  0x03, 0, 0, 0,  0, 0, 0, 0, 0, 0,
      0, 0, 0, 0, 0, 0, 0, 0, 0, 0, 0,  0, 0]"

definition quantum_v2_example :: "u8 list" where
  "quantum_v2_example =
     [0x54, 0x43, 0x50, 0x51,  2,  0, 0, 0, 0,  0, 0, 0, 0,  0, 0, 0, 0, 0, 0,
      0, 0, 0, 0, 0, 0, 0, 0, 0, 0, 0,  0, 0]"

definition short_buffer :: "u8 list" where
  "short_buffer = [1, 2, 3]"

text \<open>
  \<open>TCP_CACHE_SIZE + 1\<close> stores with pairwise different 8-byte fingerprints: store \<open>i\<close>
  has the fingerprint whose first two bytes are \<open>i\<close> in little-endian order, the
  result 1 for an even \<open>i\<close> and 0 for an odd one, and the timestamp \<open>i\<close>.
\<close>

definition ring_fingerprint :: "nat \<Rightarrow> u8 list" where
  "ring_fingerprint i = [of_nat (i mod 256), of_nat (i div 256), 0, 0, 0, 0, 0, 0]"

definition ring_store :: "nat \<Rightarrow> u8 list \<times> u8 \<times> u64" where
  "ring_store i = (ring_fingerprint i, if even i then 1 else 0, of_nat i)"

definition ring_stores :: "(u8 list \<times> u8 \<times> u64) list" where
  "ring_stores = map ring_store [0..<Suc TCP_CACHE_SIZE]"

text \<open>
  An evaluation of the first 8 bytes of \<open>classical_example\<close>, followed by
  \<open>TCP_CACHE_SIZE\<close> evaluations of 8-byte buffers with pairwise different contents
  (the fingerprints of \<open>ring_stores\<close> from 1 on), in all of which the "sha256"
  transform is not available.
\<close>

definition filler_calls :: "(crypto_env \<times> ktimes \<times> u8 list) list" where
  "filler_calls =
     map (\<lambda>i. (no_crypto, first_call, ring_fingerprint i)) [1..<Suc TCP_CACHE_SIZE]"

definition eviction_run :: "(crypto_env \<times> ktimes \<times> u8 list) list" where
  "eviction_run = (no_crypto, first_call, take 8 classical_example) # filler_calls"

text \<open>
  A caller with uid 1000 in the initial namespaces.
\<close>

definition unprivileged_caller :: task where
  "unprivileged_caller = \<lparr>uid_val = 1000, nsproxy_is_init = True\<rparr>"

section \<open>The validation cache as a ring\<close>

lemma head_advance:
  fixes h :: u32
  assumes "unat h < 10000"
  shows "unat ((h + 1) mod 10000) = (unat h + 1) mod 10000"
proof -
  have "unat (h + 1) = unat h + 1"
    using assms by (simp add: unat_word_ariths)
  then show ?thesis
    by (simp add: unat_mod)
qed

lemma cache_scan_None_iff: "cache_scan c h = None \<longleftrightarrow> (\<forall>e\<in>set c. \<not> hash_matches e h)"
  by (induction c) auto

lemma cache_scan_update_hit:
  assumes "cache_scan c h = None" and "i < length c" and "hash_matches e h"
  shows "cache_scan (c[i := e]) h = Some (validation_result e)"
  using assms
proof (induction c arbitrary: i)
  case Nil
  then show ?case by simp
next
  case (Cons a c)
  then show ?case by (cases i) (auto split: if_splits)
qed

lemma cache_scan_Some_mem:
  "cache_scan c h = Some r \<Longrightarrow> \<exists>e\<in>set c. hash_matches e h \<and> validation_result e = r"
  by (induction c) (auto split: if_splits)

lemma cache_scan_replicate:
  "cache_scan (replicate n e) h = (if 0 < n \<and> hash_matches e h then Some (validation_result e) else None)"
  by (induction n) auto

lemma store_cache: "tcp_cache (tcp_cache_store now st h r) = (tcp_cache st)[unat (tcp_cache_head st) := entry_of (h, r, now)]"
  by (simp add: tcp_cache_store_def entry_of_def)

lemma store_head: "tcp_cache_head (tcp_cache_store now st h r) = (tcp_cache_head st + 1) mod 10000"
  by (simp add: tcp_cache_store_def TCP_CACHE_SIZE_def)

lemma store_ctx: "tcp_ctx (tcp_cache_store now st h r) = tcp_ctx st"
  by (simp add: tcp_cache_store_def)

lemma store_cache_ok: "cache_ok st \<Longrightarrow> cache_ok (tcp_cache_store now st h r)"
  by (simp add: cache_ok_def store_cache store_head head_advance TCP_CACHE_SIZE_def)

lemma store_all_append: "store_all st (xs @ ys) = store_all (store_all st xs) ys"
  by (induction st xs rule: store_all.induct) auto

lemma store_all_ctx: "tcp_ctx (store_all st xs) = tcp_ctx st"
  by (induction st xs rule: store_all.induct) (auto simp: store_ctx)

lemma store_all_fill:
  assumes "length (tcp_cache st) = TCP_CACHE_SIZE"
    and "unat (tcp_cache_head st) + length xs \<le> TCP_CACHE_SIZE"
    and "unat (tcp_cache_head st) < TCP_CACHE_SIZE"
  shows "tcp_cache (store_all st xs) =
           take (unat (tcp_cache_head st)) (tcp_cache st) @ map entry_of xs
             @ drop (unat (tcp_cache_head st) + length xs) (tcp_cache st)
         \<and> unat (tcp_cache_head (store_all st xs)) =
             (unat (tcp_cache_head st) + length xs) mod TCP_CACHE_SIZE"
  using assms
proof (induction xs arbitrary: st)
  case Nil
  then show ?case by simp
next
  case (Cons x xs)
  obtain h r now where x: "x = (h, r, now)" by (cases x) auto
  let ?k = "unat (tcp_cache_head st)"
  let ?st1 = "tcp_cache_store now st h r"
  have k: "?k < length (tcp_cache st)" using Cons.prems by simp
  have c1: "tcp_cache ?st1 = take ?k (tcp_cache st) @ entry_of x # drop (Suc ?k) (tcp_cache st)"
    using k by (simp add: store_cache x upd_conv_take_nth_drop)
  have h1: "unat (tcp_cache_head ?st1) = (?k + 1) mod TCP_CACHE_SIZE"
    using Cons.prems by (simp add: store_head head_advance TCP_CACHE_SIZE_def)
  show ?case
  proof (cases xs)
    case Nil
    then show ?thesis using c1 h1 by (simp add: x)
  next
    case (Cons y ys)
    then have lt: "?k + 1 < TCP_CACHE_SIZE" using Cons.prems by simp
    then have h1': "unat (tcp_cache_head ?st1) = ?k + 1" using h1 by simp
    have len1: "length (tcp_cache ?st1) = TCP_CACHE_SIZE"
      using Cons.prems by (simp add: store_cache)
    have "tcp_cache (store_all ?st1 xs) =
            take (?k + 1) (tcp_cache ?st1) @ map entry_of xs
              @ drop (?k + 1 + length xs) (tcp_cache ?st1)
          \<and> unat (tcp_cache_head (store_all ?st1 xs)) = (?k + 1 + length xs) mod TCP_CACHE_SIZE"
      using Cons.IH [of ?st1] Cons.prems len1 h1' lt by simp
    moreover have "take (?k + 1) (tcp_cache ?st1) = take ?k (tcp_cache st) @ [entry_of x]"
      using k by (simp add: c1)
    moreover have "drop (?k + 1 + length xs) (tcp_cache ?st1) = drop (?k + 1 + length xs) (tcp_cache st)"
      using k by (simp add: store_cache)
    ultimately show ?thesis by (simp add: x)
  qed
qed

lemma loaded_filled:
  assumes "length xs = TCP_CACHE_SIZE"
  shows "tcp_cache (store_all (tcp_loaded hw) xs) = map entry_of xs"
    and "tcp_cache_head (store_all (tcp_loaded hw) xs) = 0"
proof -
  have n: "0 < TCP_CACHE_SIZE" by (simp add: TCP_CACHE_SIZE_def)
  have "tcp_cache (store_all (tcp_loaded hw) xs) =
           take (unat (tcp_cache_head (tcp_loaded hw))) (tcp_cache (tcp_loaded hw))
             @ map entry_of xs
             @ drop (unat (tcp_cache_head (tcp_loaded hw)) + length xs) (tcp_cache (tcp_loaded hw))
         \<and> unat (tcp_cache_head (store_all (tcp_loaded hw) xs)) =
             (unat (tcp_cache_head (tcp_loaded hw)) + length xs) mod TCP_CACHE_SIZE"
    by (rule store_all_fill) (use assms n in \<open>simp_all add: tcp_loaded_def\<close>)
  then show "tcp_cache (store_all (tcp_loaded hw) xs) = map entry_of xs"
    and "tcp_cache_head (store_all (tcp_loaded hw) xs) = 0"
    using assms by (simp_all add: tcp_loaded_def unat_eq_0)
qed

lemma cache_scan_entries_miss:
  assumes "take 8 h \<notin> (\<lambda>x. take 8 (fst x)) ` set ys"
  shows "cache_scan (map entry_of ys) h = None"
  using assms by (induction ys) (auto simp: hash_matches_def entry_of_def)

lemma cache_scan_entries_hit:
  assumes "distinct (map (\<lambda>x. take 8 (fst x)) ys)" and "(h, r, now) \<in> set ys"
  shows "cache_scan (map entry_of ys) h = Some r"
  using assms
proof (induction ys)
  case Nil
  then show ?case by simp
next
  case (Cons y ys)
  show ?case
  proof (cases "y = (h, r, now)")
    case True
    then show ?thesis by (simp add: hash_matches_def entry_of_def)
  next
    case False
    then have mem: "(h, r, now) \<in> set ys" using Cons.prems by simp
    then have "take 8 (fst y) \<noteq> take 8 h" using Cons.prems by force
    then have "\<not> hash_matches (entry_of y) h"
      by (cases y) (simp add: hash_matches_def entry_of_def)
    then show ?thesis using Cons mem by simp
  qed
qed

lemma lookup_full: "length c = TCP_CACHE_SIZE \<Longrightarrow> tcp_cache_lookup c h = cache_scan c h"
  by (simp add: tcp_cache_lookup_def)

lemma overflow_cache:
  assumes len: "length xs = TCP_CACHE_SIZE + 1"
  shows "tcp_cache (store_all (tcp_loaded hw) xs) = map entry_of (last xs # tl (butlast xs))"
    and "tcp_cache_head (store_all (tcp_loaded hw) xs) = 1"
proof -
  have n: "0 < TCP_CACHE_SIZE" by (simp add: TCP_CACHE_SIZE_def)
  have ne: "xs \<noteq> []" using len by auto
  obtain h r now where x: "last xs = (h, r, now)" by (cases "last xs") auto
  have split: "xs = butlast xs @ [(h, r, now)]" using ne x by (metis append_butlast_last_id)
  have lb: "length (butlast xs) = TCP_CACHE_SIZE" using len by simp
  have bne: "butlast xs \<noteq> []"
  proof
    assume "butlast xs = []"
    then have "length (butlast xs) = 0" by simp
    then show False using lb n by simp
  qed
  let ?full = "store_all (tcp_loaded hw) (butlast xs)"
  have st: "store_all (tcp_loaded hw) xs = tcp_cache_store now ?full h r"
    by (subst split) (simp add: store_all_append)
  have "tcp_cache (store_all (tcp_loaded hw) xs) = (map entry_of (butlast xs))[0 := entry_of (h, r, now)]"
    by (simp add: st store_cache loaded_filled [OF lb])
  also have "\<dots> = entry_of (h, r, now) # tl (map entry_of (butlast xs))"
    using bne by (cases "butlast xs") simp_all
  finally show "tcp_cache (store_all (tcp_loaded hw) xs) = map entry_of (last xs # tl (butlast xs))"
    by (simp add: x map_tl)
  show "tcp_cache_head (store_all (tcp_loaded hw) xs) = 1"
    by (simp add: st store_head loaded_filled [OF lb])
qed

lemma lookup_after_miss:
  assumes ok: "cache_ok st"
    and miss: "tcp_cache_lookup (tcp_cache st) h = None"
  shows "tcp_cache_lookup (tcp_cache (tcp_cache_store now st h r)) h = Some r"
proof -
  have len: "length (tcp_cache st) = TCP_CACHE_SIZE" and hd: "unat (tcp_cache_head st) < length (tcp_cache st)"
    using ok by (simp_all add: cache_ok_def)
  have "cache_scan (tcp_cache st) h = None" using miss by (simp add: lookup_full [OF len])
  then have "cache_scan ((tcp_cache st)[unat (tcp_cache_head st) := entry_of (h, r, now)]) h
               = Some (validation_result (entry_of (h, r, now)))"
    using hd by (rule cache_scan_update_hit) (simp add: entry_of_def hash_matches_def)
  then show ?thesis
    using len by (simp add: store_cache lookup_full entry_of_def)
qed

lemma zeros8: "replicate 8 (0::u8) = [0, 0, 0, 0, 0, 0, 0, 0]"
  by (simp add: eval_nat_numeral)

lemma loaded_lookup:
  "tcp_cache_lookup (tcp_cache (tcp_loaded hw)) h =
     (if take 8 h = [0, 0, 0, 0, 0, 0, 0, 0] then Some 0 else None)"
  by (auto simp: tcp_cache_lookup_def tcp_loaded_def cache_scan_replicate hash_matches_def
      zero_entry_def
      TCP_CACHE_SIZE_def zeros8)

lemma loaded_cache_ok: "cache_ok (tcp_loaded hw)"
  by (simp add: cache_ok_def tcp_loaded_def TCP_CACHE_SIZE_def)

lemma loaded_decisions_binary: "decisions_binary (tcp_loaded hw)"
  by (simp add: decisions_binary_def tcp_loaded_def zero_entry_def)

section \<open>One evaluation\<close>

lemma validate_hit:
  assumes "tcp_cache_lookup (tcp_cache st) (compute_descriptor_hash env d) = Some c"
  shows "tcp_validate_descriptor_kernel env tm st d =
           (uint c, st\<lparr>tcp_ctx := (tcp_ctx st)\<lparr>cache_hits := cache_hits (tcp_ctx st) + 1\<rparr>\<rparr>)"
  using assms by (simp add: tcp_validate_descriptor_kernel_def)

lemma validate_miss:
  assumes "tcp_cache_lookup (tcp_cache st) (compute_descriptor_hash env d) = None"
  shows "tcp_validate_descriptor_kernel env tm st d =
           (validation_outcome env (tcp_ctx st) d,
            (tcp_cache_store (store_time tm) st (compute_descriptor_hash env d)
               (if validation_outcome env (tcp_ctx st) d > 0 then 1 else 0))
             \<lparr>tcp_ctx := update_statistics tm (validation_outcome env (tcp_ctx st) d) (tcp_ctx st)\<rparr>)"
  using assms by (simp add: tcp_validate_descriptor_kernel_def Let_def store_ctx)

lemma hardware_security_checks_values:
  "hardware_security_checks ctx d = 1 \<or> hardware_security_checks ctx d = - EACCES"
  by (simp add: hardware_security_checks_def)

lemma hardware_security_checks_eq:
  "hardware_security_checks ctx d =
     (if length d = 24 \<and> classical_security_flags d AND 1 \<noteq> 0 then - EACCES
      else if length d = 24 \<or> length d = 32 then 1 else - EACCES)"
  by (simp add: hardware_security_checks_def tcp_lsm_security_check_def tcp_ebpf_security_check_def
      tcp_sgx_validation_def tcp_tpm_attestation_def)

lemma validation_outcome_ctx: "validation_outcome env ctx d = validation_outcome env ctx' d"
  by (simp add: validation_outcome_def hardware_security_checks_eq)

lemma validation_outcome_values:
  "validation_outcome env ctx d = 1 \<or> validation_outcome env ctx d = - EACCES
     \<or> validation_outcome env ctx d = - EINVAL"
  using hardware_security_checks_values [of ctx d] by (auto simp: validation_outcome_def)

lemma validate_cache_ok:
  assumes "cache_ok st"
  shows "cache_ok (snd (tcp_validate_descriptor_kernel env tm st d))"
proof (cases "tcp_cache_lookup (tcp_cache st) (compute_descriptor_hash env d)")
  case None
  then show ?thesis
    using store_cache_ok [OF assms] by (simp add: validate_miss cache_ok_def)
next
  case (Some c)
  then show ?thesis using assms by (simp add: validate_hit cache_ok_def)
qed

lemma validate_decisions_binary:
  assumes "decisions_binary st"
  shows "decisions_binary (snd (tcp_validate_descriptor_kernel env tm st d))"
proof (cases "tcp_cache_lookup (tcp_cache st) (compute_descriptor_hash env d)")
  case None
  have "set ((tcp_cache st)[i := e]) \<subseteq> insert e (set (tcp_cache st))" for i e
    by (rule set_update_subset_insert)
  then show ?thesis
    using assms None by (fastforce simp: validate_miss decisions_binary_def store_cache
        entry_of_def)
next
  case (Some c)
  then show ?thesis using assms by (simp add: validate_hit decisions_binary_def)
qed

lemma validate_all_invariants:
  assumes "cache_ok st" and "decisions_binary st"
  shows "cache_ok (validate_all st ops) \<and> decisions_binary (validate_all st ops)"
  using assms
proof (induction st ops rule: validate_all.induct)
  case (1 st)
  then show ?case by simp
next
  case (2 st env tm d rest)
  then show ?case by (simp add: validate_cache_ok validate_decisions_binary)
qed

lemma hit_is_binary:
  assumes "decisions_binary st"
    and "tcp_cache_lookup (tcp_cache st) h = Some c"
  shows "c = 0 \<or> c = 1"
proof -
  from assms(2) obtain e where "e \<in> set (take TCP_CACHE_SIZE (tcp_cache st))" "validation_result e = c"
    unfolding tcp_cache_lookup_def by (blast dest: cache_scan_Some_mem)
  then show ?thesis using assms(1) by (auto simp: decisions_binary_def dest: in_set_takeD)
qed

lemma revalidate_after_miss:
  assumes ok: "cache_ok st"
    and miss: "tcp_cache_lookup (tcp_cache st) (compute_descriptor_hash env d) = None"
  shows "tcp_validate_descriptor_kernel env tm' (snd (tcp_validate_descriptor_kernel env tm st d)) d =
           (if validation_outcome env (tcp_ctx st) d > 0 then 1 else 0,
            (snd (tcp_validate_descriptor_kernel env tm st d))
              \<lparr>tcp_ctx := (tcp_ctx (snd (tcp_validate_descriptor_kernel env tm st d)))
                 \<lparr>cache_hits := cache_hits (tcp_ctx (snd (tcp_validate_descriptor_kernel env tm st d))) + 1\<rparr>\<rparr>)"
proof -
  let ?h = "compute_descriptor_hash env d"
  let ?r = "validation_outcome env (tcp_ctx st) d"
  let ?s1 = "snd (tcp_validate_descriptor_kernel env tm st d)"
  have "tcp_cache ?s1 = tcp_cache (tcp_cache_store (store_time tm) st ?h (if ?r > 0 then 1 else 0))"
    by (simp add: validate_miss [OF miss])
  then have "tcp_cache_lookup (tcp_cache ?s1) ?h = Some (if ?r > 0 then 1 else 0)"
    using lookup_after_miss [OF ok miss] by simp
  then show ?thesis by (simp add: validate_hit)
qed

lemma revalidate_same_fingerprint:
  assumes ok: "cache_ok st"
    and miss: "tcp_cache_lookup (tcp_cache st) (compute_descriptor_hash env d) = None"
    and same: "compute_descriptor_hash env' d = compute_descriptor_hash env d"
  shows "tcp_validate_descriptor_kernel env' tm' (snd (tcp_validate_descriptor_kernel env tm st d)) d =
           (if validation_outcome env (tcp_ctx st) d > 0 then 1 else 0,
            (snd (tcp_validate_descriptor_kernel env tm st d))
              \<lparr>tcp_ctx := (tcp_ctx (snd (tcp_validate_descriptor_kernel env tm st d)))
                 \<lparr>cache_hits := cache_hits (tcp_ctx (snd (tcp_validate_descriptor_kernel env tm st d))) + 1\<rparr>\<rparr>)"
proof -
  let ?h = "compute_descriptor_hash env d"
  let ?r = "validation_outcome env (tcp_ctx st) d"
  let ?s1 = "snd (tcp_validate_descriptor_kernel env tm st d)"
  have "tcp_cache ?s1 = tcp_cache (tcp_cache_store (store_time tm) st ?h (if ?r > 0 then 1 else 0))"
    by (simp add: validate_miss [OF miss])
  then have "tcp_cache_lookup (tcp_cache ?s1) ?h = Some (if ?r > 0 then 1 else 0)"
    using lookup_after_miss [OF ok miss] by simp
  then have "tcp_cache_lookup (tcp_cache ?s1) (compute_descriptor_hash env' d)
               = Some (if ?r > 0 then 1 else 0)"
    by (simp only: same)
  then show ?thesis by (rule validate_hit [THEN trans]) simp
qed

lemma same_transform_same_fingerprint:
  assumes "sha256_shash env' = sha256_shash env"
  shows "compute_descriptor_hash env' d = compute_descriptor_hash env d"
  using assms by (simp add: compute_descriptor_hash_def)

lemma validate_all_append:
  "validate_all st (xs @ ys) = validate_all (validate_all st xs) ys"
  by (induction st xs rule: validate_all.induct) auto

lemma lookup_miss_iff:
  assumes "cache_ok st"
  shows "tcp_cache_lookup (tcp_cache st) h = None \<longleftrightarrow> (\<forall>e\<in>set (tcp_cache st). \<not> hash_matches e h)"
  using assms by (simp add: cache_ok_def lookup_full cache_scan_None_iff)

lemma miss_after_miss:
  assumes ok: "cache_ok st"
    and miss: "tcp_cache_lookup (tcp_cache st) (compute_descriptor_hash env d) = None"
    and other: "tcp_cache_lookup (tcp_cache st) g = None"
    and diff: "take 8 (compute_descriptor_hash env d) \<noteq> take 8 g"
  shows "tcp_cache_lookup (tcp_cache (snd (tcp_validate_descriptor_kernel env tm st d))) g = None"
proof -
  let ?new = "entry_of (compute_descriptor_hash env d,
      if validation_outcome env (tcp_ctx st) d > 0 then 1 else 0, store_time tm)"
  let ?s1 = "snd (tcp_validate_descriptor_kernel env tm st d)"
  have c1: "tcp_cache ?s1 = (tcp_cache st)[unat (tcp_cache_head st) := ?new]"
    by (simp add: validate_miss [OF miss] store_cache)
  have ok1: "cache_ok ?s1" using ok by (rule validate_cache_ok)
  have clean: "\<forall>e\<in>set (tcp_cache st). \<not> hash_matches e g"
    using other ok by (simp add: lookup_miss_iff)
  have "\<not> hash_matches e g" if e: "e \<in> set ((tcp_cache st)[unat (tcp_cache_head st) := ?new])" for e
  proof -
    have "e \<in> insert ?new (set (tcp_cache st))"
      using e set_update_subset_insert [of "tcp_cache st" "unat (tcp_cache_head st)" ?new]
      by (rule subsetD [rotated])
    then show ?thesis using clean diff by (auto simp: hash_matches_def entry_of_def)
  qed
  then have "\<forall>e\<in>set (tcp_cache ?s1). \<not> hash_matches e g" by (simp only: c1) blast
  then show ?thesis using ok1 by (simp only: lookup_miss_iff)
qed

lemma lookup_first_slot:
  assumes "c \<noteq> []" and "hash_matches (c ! 0) h"
  shows "tcp_cache_lookup c h = Some (validation_result (c ! 0))"
  using assms by (cases c) (simp_all add: tcp_cache_lookup_def TCP_CACHE_SIZE_def)

lemma validate_all_stores:
  assumes "cache_ok st"
    and "tcp_cache st' = tcp_cache st" and "tcp_cache_head st' = tcp_cache_head st"
    and "distinct (map (\<lambda>op. take 8 (compute_descriptor_hash (fst op) (snd (snd op)))) ops)"
    and "\<forall>op\<in>set ops. \<forall>e\<in>set (tcp_cache st).
           \<not> hash_matches e (compute_descriptor_hash (fst op) (snd (snd op)))"
  shows "tcp_cache (validate_all st ops) = tcp_cache (store_all st' (map (op_store ctx) ops))
       \<and> tcp_cache_head (validate_all st ops) = tcp_cache_head (store_all st' (map (op_store ctx) ops))"
  using assms
proof (induction ops arbitrary: st st')
  case Nil
  then show ?case by simp
next
  case (Cons op ops)
  obtain env tm d where op: "op = (env, tm, d)" by (cases op) auto
  let ?h = "compute_descriptor_hash env d"
  let ?r = "if validation_outcome env (tcp_ctx st) d > 0 then 1 else (0::u8)"
  let ?st1 = "snd (tcp_validate_descriptor_kernel env tm st d)"
  let ?st1' = "tcp_cache_store (store_time tm) st' ?h ?r"
  have miss: "tcp_cache_lookup (tcp_cache st) ?h = None"
    using Cons.prems(1,5) by (simp add: lookup_miss_iff op)
  have c1: "tcp_cache ?st1 = (tcp_cache st)[unat (tcp_cache_head st) := entry_of (?h, ?r, store_time tm)]"
    and h1: "tcp_cache_head ?st1 = (tcp_cache_head st + 1) mod 10000"
    by (simp_all add: validate_miss [OF miss] store_cache store_head)
  have ok1: "cache_ok ?st1" using Cons.prems(1) by (rule validate_cache_ok)
  have same_c: "tcp_cache ?st1' = tcp_cache ?st1" and same_h: "tcp_cache_head ?st1' = tcp_cache_head ?st1"
    using Cons.prems(2,3) by (simp_all add: c1 h1 store_cache store_head)
  have dist: "distinct (map (\<lambda>op. take 8 (compute_descriptor_hash (fst op) (snd (snd op)))) ops)"
    using Cons.prems(4) by simp
  have fresh: "\<forall>op'\<in>set ops. \<forall>e\<in>set (tcp_cache ?st1).
      \<not> hash_matches e (compute_descriptor_hash (fst op') (snd (snd op')))"
  proof (intro ballI)
    fix op' e assume op': "op' \<in> set ops" and e: "e \<in> set (tcp_cache ?st1)"
    have "e \<in> insert (entry_of (?h, ?r, store_time tm)) (set (tcp_cache st))"
      using e set_update_subset_insert [of "tcp_cache st" "unat (tcp_cache_head st)"
          "entry_of (?h, ?r, store_time tm)"]
      unfolding c1 by (rule subsetD [rotated])
    then have "e = entry_of (?h, ?r, store_time tm) \<or> e \<in> set (tcp_cache st)" by blast
    then show "\<not> hash_matches e (compute_descriptor_hash (fst op') (snd (snd op')))"
    proof
      assume "e = entry_of (?h, ?r, store_time tm)"
      moreover have "take 8 ?h \<noteq> take 8 (compute_descriptor_hash (fst op') (snd (snd op')))"
        using Cons.prems(4) op' by (auto simp: op)
      ultimately show ?thesis by (simp add: hash_matches_def entry_of_def)
    next
      assume "e \<in> set (tcp_cache st)"
      then show ?thesis using Cons.prems(5) op' by simp
    qed
  qed
  have step: "op_store ctx (env, tm, d) = (?h, ?r, store_time tm)"
    by (simp add: op_store_def validation_outcome_ctx [of env ctx d "tcp_ctx st"])
  have "store_all st' (map (op_store ctx) (op # ops)) = store_all ?st1' (map (op_store ctx) ops)"
    by (simp only: op list.map step store_all.simps)
  then show ?case
    using Cons.IH [OF ok1 same_c same_h dist fresh]
    by (simp add: op)
qed

lemma overflow_entries:
  assumes len: "length xs = TCP_CACHE_SIZE + 1"
  shows "set (tcp_cache (store_all (tcp_loaded hw) xs)) \<subseteq> entry_of ` set (tl xs)"
proof -
  have n: "0 < TCP_CACHE_SIZE" by (simp add: TCP_CACHE_SIZE_def)
  have ltl: "length (tl xs) = TCP_CACHE_SIZE" using len by simp
  have tne: "tl xs \<noteq> []"
  proof
    assume "tl xs = []"
    then have "length (tl xs) = 0" by (simp del: length_tl)
    then show False using ltl n by simp
  qed
  have ne: "xs \<noteq> []" using len by auto
  have "last xs = last (tl xs)" using tne by (simp add: last_tl)
  then have a: "last xs \<in> set (tl xs)" using tne by (metis last_in_set)
  have "tl (butlast xs) = butlast (tl xs)" by (simp add: butlast_tl)
  then have b: "set (tl (butlast xs)) \<subseteq> set (tl xs)" by (metis in_set_butlastD subsetI)
  have "set (last xs # tl (butlast xs)) \<subseteq> set (tl xs)" using a b by simp
  then show ?thesis by (auto simp only: overflow_cache(1) [OF len] set_map)
qed

lemma denies_fingerprint_step:
  assumes "denies_fingerprint h st"
    and "take 8 (compute_descriptor_hash env d) = take 8 h \<longrightarrow> validation_outcome env ctx d \<le> 0"
  shows "denies_fingerprint h (snd (tcp_validate_descriptor_kernel env tm st d))"
proof (cases "tcp_cache_lookup (tcp_cache st) (compute_descriptor_hash env d)")
  case None
  let ?new = "entry_of (compute_descriptor_hash env d,
      if validation_outcome env (tcp_ctx st) d > 0 then 1 else 0, store_time tm)"
  have c1: "tcp_cache (snd (tcp_validate_descriptor_kernel env tm st d))
              = (tcp_cache st)[unat (tcp_cache_head st) := ?new]"
    by (simp add: validate_miss [OF None] store_cache)
  have new: "hash_matches ?new h \<longrightarrow> validation_result ?new = 0"
  proof
    assume "hash_matches ?new h"
    then have "take 8 (compute_descriptor_hash env d) = take 8 h"
      by (simp add: hash_matches_def entry_of_def)
    then have "validation_outcome env (tcp_ctx st) d \<le> 0"
      using assms(2) validation_outcome_ctx [of env ctx d "tcp_ctx st"] by simp
    then show "validation_result ?new = 0" by (simp add: entry_of_def)
  qed
  show ?thesis
    unfolding denies_fingerprint_def c1
  proof (intro ballI impI)
    fix e assume e: "e \<in> set ((tcp_cache st)[unat (tcp_cache_head st) := ?new])" and m: "hash_matches e h"
    have "e \<in> insert ?new (set (tcp_cache st))"
      using e set_update_subset_insert [of "tcp_cache st" "unat (tcp_cache_head st)" ?new]
      by (rule subsetD [rotated])
    then show "validation_result e = 0"
      using new m assms(1) by (auto simp: denies_fingerprint_def)
  qed
next
  case (Some c)
  then show ?thesis using assms(1) by (simp add: validate_hit denies_fingerprint_def)
qed

lemma denies_fingerprint_run:
  assumes "denies_fingerprint h st"
    and "\<forall>op\<in>set ops. take 8 (compute_descriptor_hash (fst op) (snd (snd op))) = take 8 h \<longrightarrow>
           validation_outcome (fst op) ctx (snd (snd op)) \<le> 0"
  shows "denies_fingerprint h (validate_all st ops)"
  using assms
proof (induction st ops rule: validate_all.induct)
  case (1 st)
  then show ?case by simp
next
  case (2 st env tm d rest)
  have "denies_fingerprint h (snd (tcp_validate_descriptor_kernel env tm st d))"
    using "2.prems" by (intro denies_fingerprint_step [where ctx = ctx]) simp_all
  then show ?case using "2.IH" "2.prems"(2) by simp
qed

lemma denies_fingerprint_hit:
  assumes "denies_fingerprint h st" and "tcp_cache_lookup (tcp_cache st) h = Some c"
  shows "c = 0"
proof -
  from assms(2) obtain e where "e \<in> set (take TCP_CACHE_SIZE (tcp_cache st))"
    and "hash_matches e h" and "validation_result e = c"
    unfolding tcp_cache_lookup_def by (blast dest: cache_scan_Some_mem)
  then show ?thesis using assms(1) by (auto simp: denies_fingerprint_def dest: in_set_takeD)
qed

lemma rejection_denies_fingerprint:
  assumes ok: "cache_ok st" and neg: "fst (tcp_validate_descriptor_kernel env tm st d) < 0"
  shows "denies_fingerprint (compute_descriptor_hash env d) (snd (tcp_validate_descriptor_kernel env tm st d))"
proof (cases "tcp_cache_lookup (tcp_cache st) (compute_descriptor_hash env d)")
  case None
  then have clean: "\<forall>e\<in>set (tcp_cache st). \<not> hash_matches e (compute_descriptor_hash env d)"
    using ok by (simp add: lookup_miss_iff)
  then have "denies_fingerprint (compute_descriptor_hash env d) st"
    by (simp add: denies_fingerprint_def)
  moreover have "validation_outcome env (tcp_ctx st) d \<le> 0"
    using neg by (simp add: validate_miss [OF None])
  ultimately show ?thesis by (intro denies_fingerprint_step [where ctx = "tcp_ctx st"]) simp_all
next
  case (Some c)
  then show ?thesis using neg by (simp add: validate_hit)
qed

section \<open>The concrete inputs evaluated\<close>

lemma outcome_classical: "validation_outcome no_crypto ctx classical_example = 1"
  by (simp add: validation_outcome_def hardware_security_checks_eq classical_example_def
      classical_magic_def classical_security_flags_def classical_checksum_def get_u32_def
          get_u16_def
      TCP_MAGIC_CLASSICAL_def tcp_hardware_crc16_def no_crypto_def)


lemma outcome_low_bit: "validation_outcome no_crypto ctx classical_low_bit_example = - EACCES"
  by (simp add: validation_outcome_def hardware_security_checks_eq classical_low_bit_example_def
      no_crypto_def classical_magic_def classical_security_flags_def classical_checksum_def
      quantum_magic_def quantum_version_def get_u32_def get_u16_def TCP_MAGIC_CLASSICAL_def
      TCP_MAGIC_QUANTUM_def
      tcp_hardware_crc16_def)

lemma outcome_quantum: "validation_outcome no_crypto ctx quantum_example = 1"
  by (simp add: validation_outcome_def hardware_security_checks_eq quantum_example_def
      quantum_magic_def quantum_version_def get_u32_def get_u16_def
      TCP_MAGIC_QUANTUM_def tcp_hardware_crc16_def no_crypto_def)

lemma outcome_quantum_v2: "validation_outcome env ctx quantum_v2_example = - EINVAL"
  by (simp add: validation_outcome_def quantum_v2_example_def classical_magic_def
      classical_security_flags_def classical_checksum_def quantum_magic_def quantum_version_def
      get_u32_def get_u16_def TCP_MAGIC_CLASSICAL_def TCP_MAGIC_QUANTUM_def)

lemma outcome_short: "validation_outcome env ctx short_buffer = - EINVAL"
  by (simp add: validation_outcome_def short_buffer_def)

lemma loaded_miss_classical:
  "tcp_cache_lookup (tcp_cache (tcp_loaded hw)) (compute_descriptor_hash no_crypto classical_example) = None"
  by (simp add: loaded_lookup compute_descriptor_hash_def classical_example_def no_crypto_def)


lemma loaded_miss_low_bit:
  "tcp_cache_lookup (tcp_cache (tcp_loaded hw)) (compute_descriptor_hash no_crypto classical_low_bit_example) = None"
  by (simp add: loaded_lookup compute_descriptor_hash_def classical_low_bit_example_def
      no_crypto_def)

lemma loaded_miss_quantum:
  "tcp_cache_lookup (tcp_cache (tcp_loaded hw)) (compute_descriptor_hash no_crypto quantum_example) = None"
  by (simp add: loaded_lookup compute_descriptor_hash_def quantum_example_def no_crypto_def)

lemma loaded_miss_quantum_v2:
  "tcp_cache_lookup (tcp_cache (tcp_loaded hw)) (compute_descriptor_hash no_crypto quantum_v2_example) = None"
  by (simp add: loaded_lookup compute_descriptor_hash_def quantum_v2_example_def no_crypto_def)

lemma loaded_miss_short:
  "tcp_cache_lookup (tcp_cache (tcp_loaded hw)) (compute_descriptor_hash no_crypto short_buffer) = None"
  by (simp add: loaded_lookup compute_descriptor_hash_def short_buffer_def no_crypto_def)

lemma byte_of_nat_inj:
  assumes "of_nat a = (of_nat b :: u8)" and "a < 256" and "b < 256"
  shows "a = b"
proof -
  have "unat (of_nat a :: u8) = unat (of_nat b :: u8)" using assms(1) by simp
  then show ?thesis using assms(2,3) by (simp add: unat_of_nat)
qed

lemma ring_fingerprint_inj:
  assumes "ring_fingerprint i = ring_fingerprint j" and "i < 65536" and "j < 65536"
  shows "i = j"
proof -
  have lo: "of_nat (i mod 256) = (of_nat (j mod 256) :: u8)"
    and hi: "of_nat (i div 256) = (of_nat (j div 256) :: u8)"
    using assms(1) by (simp_all add: ring_fingerprint_def)
  have "i mod 256 = j mod 256" by (rule byte_of_nat_inj [OF lo]) simp_all
  moreover have "i div 256 = j div 256"
    by (rule byte_of_nat_inj [OF hi]) (use assms(2,3) in simp_all)
  ultimately show ?thesis by (metis div_mult_mod_eq)
qed

lemma ring_stores_distinct: "distinct (map fst ring_stores)"
proof -
  have "inj_on ring_fingerprint (set [0..<Suc TCP_CACHE_SIZE])"
    by (rule inj_onI) (rule ring_fingerprint_inj, simp_all add: TCP_CACHE_SIZE_def)
  then have "distinct (map ring_fingerprint [0..<Suc TCP_CACHE_SIZE])"
    by (simp add: distinct_map del: upt_Suc)
  moreover have "map fst ring_stores = map ring_fingerprint [0..<Suc TCP_CACHE_SIZE]"
    by (simp add: ring_stores_def ring_store_def del: upt_Suc)
  ultimately show ?thesis by simp
qed

lemma ring_stores_length: "length ring_stores = TCP_CACHE_SIZE + 1"
  by (simp add: ring_stores_def)

lemma ring_stores_eight: "\<forall>x\<in>set ring_stores. length (fst x) = 8"
  by (simp add: ring_stores_def ring_store_def ring_fingerprint_def)

lemma ring_stores_hd: "hd ring_stores = ring_store 0"
  by (simp add: ring_stores_def upt_conv_Cons del: upt_Suc)

lemma ring_stores_tl:
  assumes "i \<noteq> 0" and "i \<le> TCP_CACHE_SIZE"
  shows "ring_store i \<in> set (tl ring_stores)"
proof -
  have "tl ring_stores = map ring_store [Suc 0..<Suc TCP_CACHE_SIZE]"
    unfolding ring_stores_def by (simp only: map_tl [symmetric] tl_upt)
  moreover have "i \<in> set [Suc 0..<Suc TCP_CACHE_SIZE]" using assms by auto
  ultimately show ?thesis by (simp del: upt_Suc)
qed

lemma fallback_hash_eight:
  "length d = 8 \<Longrightarrow> compute_descriptor_hash no_crypto d = d"
  by (simp add: compute_descriptor_hash_def no_crypto_def)

lemma fallback_hash_prefix:
  "compute_descriptor_hash no_crypto (take 8 classical_example) = [2, 84, 67, 80, 0, 0, 0, 0]"
  "compute_descriptor_hash no_crypto classical_example = [2, 84, 67, 80, 0, 0, 0, 0]"
  by (simp_all add: compute_descriptor_hash_def classical_example_def no_crypto_def)

lemma ring_fingerprint_length: "length (ring_fingerprint i) = 8"
  by (simp add: ring_fingerprint_def)

lemma ring_fingerprint_not_prefix: "ring_fingerprint i \<noteq> [2, 84, 67, 80, 0, 0, 0, 0]"
  by (simp add: ring_fingerprint_def)

lemma ring_fingerprint_not_zero:
  assumes "i \<noteq> 0" and "i < 65536"
  shows "ring_fingerprint i \<noteq> [0, 0, 0, 0, 0, 0, 0, 0]"
proof
  assume "ring_fingerprint i = [0, 0, 0, 0, 0, 0, 0, 0]"
  then have "ring_fingerprint i = ring_fingerprint 0" by (simp add: ring_fingerprint_def)
  then have "i = 0" using assms(2) by (rule ring_fingerprint_inj) simp
  then show False using assms(1) by simp
qed

lemma filler_hashes:
  "map (\<lambda>op. take 8 (compute_descriptor_hash (fst op) (snd (snd op)))) filler_calls
     = map ring_fingerprint [1..<Suc TCP_CACHE_SIZE]"
  by (simp add: filler_calls_def fallback_hash_eight ring_fingerprint_length del: upt_Suc)

lemma eviction_run_distinct:
  "distinct (map (\<lambda>op. take 8 (compute_descriptor_hash (fst op) (snd (snd op)))) eviction_run)"
proof -
  have "inj_on ring_fingerprint (set [1..<Suc TCP_CACHE_SIZE])"
    by (rule inj_onI) (rule ring_fingerprint_inj, simp_all add: TCP_CACHE_SIZE_def)
  then have "distinct (map ring_fingerprint [1..<Suc TCP_CACHE_SIZE])"
    by (simp add: distinct_map del: upt_Suc)
  moreover have "[2, 84, 67, 80, 0, 0, 0, 0] \<notin> set (map ring_fingerprint [1..<Suc TCP_CACHE_SIZE])"
    using ring_fingerprint_not_prefix by (metis (no_types) imageE list.set_map)
  ultimately show ?thesis
    by (simp add: eviction_run_def filler_hashes fallback_hash_prefix del: upt_Suc)
qed

lemma eviction_run_length: "length eviction_run = TCP_CACHE_SIZE + 1"
  by (simp add: eviction_run_def filler_calls_def)

lemma zero_entry_matches: "hash_matches zero_entry h \<longleftrightarrow> take 8 h = [0, 0, 0, 0, 0, 0, 0, 0]"
  by (auto simp: hash_matches_def zero_entry_def zeros8)

lemma eviction_run_fresh:
  "\<forall>op\<in>set eviction_run. \<forall>e\<in>set (tcp_cache (tcp_loaded hw)).
      \<not> hash_matches e (compute_descriptor_hash (fst op) (snd (snd op)))"
proof (intro ballI)
  fix op e assume op: "op \<in> set eviction_run" and e: "e \<in> set (tcp_cache (tcp_loaded hw))"
  have e0: "e = zero_entry" using e by (simp add: tcp_loaded_def)
  from op consider "op = (no_crypto, first_call, take 8 classical_example)"
    | i where "op = (no_crypto, first_call, ring_fingerprint i)" "1 \<le> i" "i \<le> TCP_CACHE_SIZE"
    by (auto simp: eviction_run_def filler_calls_def simp del: upt_Suc)
  then show "\<not> hash_matches e (compute_descriptor_hash (fst op) (snd (snd op)))"
  proof cases
    case 1
    then show ?thesis by (simp add: e0 zero_entry_matches fallback_hash_prefix)
  next
    case 2
    then have "ring_fingerprint i \<noteq> [0, 0, 0, 0, 0, 0, 0, 0]"
      by (intro ring_fingerprint_not_zero) (simp_all add: TCP_CACHE_SIZE_def)
    then show ?thesis
      using 2 by (simp add: e0 zero_entry_matches fallback_hash_eight ring_fingerprint_length)
  qed
qed

lemma eviction_run_evicts:
  "tcp_cache_lookup (tcp_cache (validate_all (tcp_loaded hw) eviction_run))
     [2, 84, 67, 80, 0, 0, 0, 0] = None"
proof -
  let ?S = "validate_all (tcp_loaded hw) eviction_run"
  let ?xs = "map (op_store (tcp_ctx (tcp_loaded hw))) eviction_run"
  have ok: "cache_ok ?S"
    using validate_all_invariants [OF loaded_cache_ok loaded_decisions_binary] by blast
  have "tcp_cache ?S = tcp_cache (store_all (tcp_loaded hw) ?xs)"
    using validate_all_stores [OF loaded_cache_ok refl refl eviction_run_distinct
        eviction_run_fresh]
    by blast
  moreover have "length ?xs = TCP_CACHE_SIZE + 1" by (simp add: eviction_run_length)
  ultimately have sub: "set (tcp_cache ?S) \<subseteq> entry_of ` set (tl ?xs)"
    using overflow_entries by metis
  have tl: "tl ?xs = map (op_store (tcp_ctx (tcp_loaded hw))) filler_calls"
    by (simp add: eviction_run_def)
  have "\<not> hash_matches e [2, 84, 67, 80, 0, 0, 0, 0]" if "e \<in> set (tcp_cache ?S)" for e
  proof -
    from that sub obtain op where "op \<in> set filler_calls"
      and "e = entry_of (op_store (tcp_ctx (tcp_loaded hw)) op)"
      unfolding tl by auto
    then obtain i where "e = entry_of (op_store (tcp_ctx (tcp_loaded hw))
        (no_crypto, first_call, ring_fingerprint i))"
      by (auto simp: filler_calls_def simp del: upt_Suc)
    then have "take 8 (descriptor_hash e) = ring_fingerprint i"
      by (simp add: entry_of_def op_store_def fallback_hash_eight ring_fingerprint_length)
    then show ?thesis using ring_fingerprint_not_prefix [of i] by (simp add: hash_matches_def)
  qed
  then show ?thesis using ok by (simp add: lookup_miss_iff)
qed

section \<open>The syscall table\<close>

lemma find_in_table_absent: "nr \<notin> syscall_nr ` set tbl \<Longrightarrow> find_in_table tbl nr = None"
  by (induction tbl) auto

lemma module_load_context_fails:
  assumes "uid_val cur \<noteq> 0" and "nsproxy_is_init cur"
  shows "\<not> tcp_check_context cur (tcp_descriptors nrs ! 2)"
  using assms
  by (simp add: tcp_check_context_def tcp_descriptors_def TCP_CTX_ADMIN_def TCP_CTX_KERNEL_def
      TCP_CTX_USER_def)

lemma find_module_load:
  assumes "NR_unlink nrs \<noteq> NR_init_module nrs" and "NR_execve nrs \<noteq> NR_init_module nrs"
  shows "tcp_find_descriptor nrs (NR_init_module nrs) = Some (tcp_descriptors nrs ! 2)"
  using assms by (simp add: tcp_find_descriptor_def tcp_descriptors_def)

lemma module_load_not_safe: "security_flags (tcp_descriptors nrs ! 2) AND TCP_FLAG_SAFE = 0"
  by (simp add: tcp_descriptors_def TCP_FLAG_SAFE_def TCP_FLAG_CRITICAL_def TCP_FLAG_KERNEL_def
      TCP_FLAG_DESTRUCTIVE_def)

section \<open>The claims\<close>

subsection \<open>C1: the policy gate\<close>

text \<open>
  Claim C1 as stated fails. The security flags of \<open>classical_example\<close> have the second
  bit (\<open>0x0002\<close>, Destructive in the ordering Safe, Destructive, Filesystem, ...) set, the
  policy gate \<open>tcp_lsm_security_check\<close> lets it pass and the evaluation returns 1; the
  flags of the 32-byte \<open>quantum_example\<close> have the first and the second bit set, and it
  passes the gate and is allowed as well.
\<close>

theorem policy_gate_counterexample:
  "classical_security_flags classical_example AND 0x0002 \<noteq> 0
   \<and> tcp_lsm_security_check classical_example = 1
   \<and> fst (tcp_validate_descriptor_kernel no_crypto first_call (tcp_loaded basic_hw)
       classical_example) = 1
   \<and> quantum_security_flags quantum_example AND 0x0002 \<noteq> 0
   \<and> tcp_lsm_security_check quantum_example = 1
   \<and> fst (tcp_validate_descriptor_kernel no_crypto first_call (tcp_loaded basic_hw) quantum_example) = 1"
  by (simp add: validate_miss [OF loaded_miss_classical] validate_miss [OF loaded_miss_quantum]
      outcome_classical outcome_quantum)
    (simp add: tcp_lsm_security_check_def classical_example_def quantum_example_def no_crypto_def
        classical_magic_def classical_security_flags_def classical_checksum_def quantum_magic_def
        quantum_version_def get_u32_def get_u16_def TCP_MAGIC_CLASSICAL_def TCP_MAGIC_QUANTUM_def
        quantum_security_flags_def)

text \<open>
  Claim C1, amended. On a cache miss, a 24-byte Classical descriptor that passes the magic
  and checksum checks is denied with \<open>-EACCES\<close> exactly when the lowest bit (mask
  \<open>0x0001\<close>, the bit the source comments as DESTRUCTIVE) of its security flags is set,
  and is allowed otherwise; a 32-byte Quantum descriptor with the right magic and a version
  of at least 3 is allowed whatever its flags, because the policy gate looks at 24-byte
  descriptors only.
\<close>

theorem policy_gate_classical_only:
  assumes "tcp_cache_lookup (tcp_cache st) (compute_descriptor_hash env d) = None"
  shows "(length d = 24 \<and> classical_magic d = TCP_MAGIC_CLASSICAL
            \<and> tcp_hardware_crc16 env d 22 = classical_checksum d \<longrightarrow>
          fst (tcp_validate_descriptor_kernel env tm st d) =
            (if classical_security_flags d AND 0x0001 \<noteq> 0 then - EACCES else 1))
       \<and> (length d = 32 \<and> quantum_magic d = TCP_MAGIC_QUANTUM \<and> 3 \<le>
           quantum_version d \<longrightarrow>
          fst (tcp_validate_descriptor_kernel env tm st d) = 1)
       \<and> (tcp_lsm_security_check d = 0 \<longleftrightarrow> length d = 24 \<and> classical_security_flags d AND 0x0001 \<noteq> 0)"
  by (auto simp: validate_miss [OF assms] validation_outcome_def hardware_security_checks_eq
      tcp_lsm_security_check_def)

theorem policy_gate_classical_only_witness:
  "tcp_cache_lookup (tcp_cache (tcp_loaded basic_hw))
       (compute_descriptor_hash no_crypto classical_low_bit_example) = None
   \<and> length classical_low_bit_example = 24
   \<and> classical_magic classical_low_bit_example = TCP_MAGIC_CLASSICAL
   \<and> tcp_hardware_crc16 no_crypto classical_low_bit_example 22
         = classical_checksum classical_low_bit_example
   \<and> classical_security_flags classical_low_bit_example AND 0x0001 \<noteq> 0
   \<and> fst (tcp_validate_descriptor_kernel no_crypto first_call (tcp_loaded basic_hw)
         classical_low_bit_example) = - EACCES
   \<and> tcp_cache_lookup (tcp_cache (tcp_loaded basic_hw))
       (compute_descriptor_hash no_crypto quantum_example) = None
   \<and> length quantum_example = 32
   \<and> quantum_magic quantum_example = TCP_MAGIC_QUANTUM
   \<and> 3 \<le> quantum_version quantum_example
   \<and> fst (tcp_validate_descriptor_kernel no_crypto first_call (tcp_loaded basic_hw)
         quantum_example) = 1"
proof -
  have miss: "tcp_cache_lookup (tcp_cache (tcp_loaded basic_hw))
       (compute_descriptor_hash no_crypto classical_low_bit_example) = None"
    by (rule loaded_miss_low_bit)
  have len: "length classical_low_bit_example = 24"
    by (simp add: classical_low_bit_example_def)
  have magic: "classical_magic classical_low_bit_example = TCP_MAGIC_CLASSICAL"
    by (simp add: classical_low_bit_example_def classical_magic_def get_u32_def
        TCP_MAGIC_CLASSICAL_def)
  have crc: "tcp_hardware_crc16 no_crypto classical_low_bit_example 22
          = classical_checksum classical_low_bit_example"
    by (simp add: classical_low_bit_example_def no_crypto_def classical_checksum_def get_u16_def
        tcp_hardware_crc16_def)
  have bit: "classical_security_flags classical_low_bit_example AND 0x0001 \<noteq> 0"
    by (simp add: classical_low_bit_example_def classical_security_flags_def get_u32_def)
  from policy_gate_classical_only [OF miss, where tm = first_call] len magic crc
  have "fst (tcp_validate_descriptor_kernel no_crypto first_call (tcp_loaded basic_hw)
         classical_low_bit_example) =
       (if classical_security_flags classical_low_bit_example AND 0x0001 \<noteq> 0
        then - EACCES else 1)"
    by blast
  with bit have denied: "fst (tcp_validate_descriptor_kernel no_crypto first_call
        (tcp_loaded basic_hw) classical_low_bit_example) = - EACCES"
    by simp
  have qmiss: "tcp_cache_lookup (tcp_cache (tcp_loaded basic_hw))
       (compute_descriptor_hash no_crypto quantum_example) = None"
    by (rule loaded_miss_quantum)
  have qlen: "length quantum_example = 32" by (simp add: quantum_example_def)
  have qmagic: "quantum_magic quantum_example = TCP_MAGIC_QUANTUM"
    by (simp add: quantum_example_def quantum_magic_def get_u32_def TCP_MAGIC_QUANTUM_def)
  have qver: "3 \<le> quantum_version quantum_example"
    by (simp add: quantum_example_def quantum_version_def)
  from policy_gate_classical_only [OF qmiss, where tm = first_call] qlen qmagic qver
  have allowed: "fst (tcp_validate_descriptor_kernel no_crypto first_call (tcp_loaded basic_hw)
         quantum_example) = 1"
    by blast
  from miss len magic crc bit denied qmiss qlen qmagic qver allowed show ?thesis by blast
qed

subsection \<open>C2: evaluating the same buffer twice\<close>

text \<open>
  Claim C2 as stated fails. The 3-byte \<open>short_buffer\<close> is rejected with \<open>-EINVAL\<close>
  by the first call and reported as 0 by the second, and the second call, a cache hit,
  leaves \<open>validation_count\<close> as the first call left it. And when the "sha256" transform
  is not available to the first call and is allocated in the second, the two calls compute
  different fingerprints of the buffer: the second call misses the cache, returns
  \<open>-EINVAL\<close> and adds nothing to \<open>cache_hits\<close>.
\<close>

theorem repeated_call_counterexample:
  "fst (tcp_validate_descriptor_kernel no_crypto first_call (tcp_loaded basic_hw) short_buffer) = - EINVAL
   \<and> fst (tcp_validate_descriptor_kernel no_crypto second_call
        (snd (tcp_validate_descriptor_kernel no_crypto first_call (tcp_loaded basic_hw)
            short_buffer))
        short_buffer) = 0
   \<and> validation_count (tcp_ctx (snd (tcp_validate_descriptor_kernel no_crypto second_call
        (snd (tcp_validate_descriptor_kernel no_crypto first_call (tcp_loaded basic_hw)
            short_buffer))
        short_buffer)))
     = validation_count (tcp_ctx
        (snd (tcp_validate_descriptor_kernel no_crypto first_call (tcp_loaded basic_hw) short_buffer)))
   \<and> tcp_cache_lookup
        (tcp_cache (snd (tcp_validate_descriptor_kernel no_crypto first_call
           (tcp_loaded basic_hw) short_buffer)))
        (compute_descriptor_hash sha_crypto short_buffer) = None
   \<and> fst (tcp_validate_descriptor_kernel sha_crypto second_call
        (snd (tcp_validate_descriptor_kernel no_crypto first_call (tcp_loaded basic_hw)
            short_buffer))
        short_buffer) = - EINVAL
   \<and> cache_hits (tcp_ctx (snd (tcp_validate_descriptor_kernel sha_crypto second_call
        (snd (tcp_validate_descriptor_kernel no_crypto first_call (tcp_loaded basic_hw)
            short_buffer))
        short_buffer)))
     = cache_hits (tcp_ctx
        (snd (tcp_validate_descriptor_kernel no_crypto first_call (tcp_loaded basic_hw) short_buffer)))"
proof -
  let ?s1 = "snd (tcp_validate_descriptor_kernel no_crypto first_call (tcp_loaded basic_hw) short_buffer)"
  have first: "fst (tcp_validate_descriptor_kernel no_crypto first_call (tcp_loaded basic_hw) short_buffer) = - EINVAL"
    by (simp add: validate_miss [OF loaded_miss_short] outcome_short)
  have again: "fst (tcp_validate_descriptor_kernel no_crypto second_call ?s1 short_buffer) = 0"
    and count: "validation_count (tcp_ctx (snd (tcp_validate_descriptor_kernel no_crypto second_call
            ?s1 short_buffer)))
          = validation_count (tcp_ctx ?s1)"
    by (simp_all add: revalidate_after_miss [OF loaded_cache_ok loaded_miss_short] outcome_short
        EINVAL_def)
  have sha: "compute_descriptor_hash sha_crypto short_buffer
               = [0x03, 0x90, 0x58, 0xC6, 0xF2, 0xC0, 0xCB, 0x49]"
    by (simp add: compute_descriptor_hash_def sha_crypto_def sha256_table_def short_buffer_def)
  have "replicate 5 (0::u8) = [0, 0, 0, 0, 0]" by (simp add: eval_nat_numeral)
  then have fallback: "compute_descriptor_hash no_crypto short_buffer = [1, 2, 3, 0, 0, 0, 0, 0]"
    by (simp add: compute_descriptor_hash_def no_crypto_def short_buffer_def)
  have other: "tcp_cache_lookup (tcp_cache (tcp_loaded basic_hw))
      (compute_descriptor_hash sha_crypto short_buffer) = None"
    by (simp add: loaded_lookup sha)
  have diff: "take 8 (compute_descriptor_hash no_crypto short_buffer)
      \<noteq> take 8 (compute_descriptor_hash sha_crypto short_buffer)"
    by (simp add: sha fallback)
  have miss: "tcp_cache_lookup (tcp_cache ?s1) (compute_descriptor_hash sha_crypto short_buffer) = None"
    using loaded_cache_ok loaded_miss_short other diff by (rule miss_after_miss)
  have flipped: "fst (tcp_validate_descriptor_kernel sha_crypto second_call ?s1 short_buffer) = - EINVAL"
    and hits: "cache_hits (tcp_ctx (snd (tcp_validate_descriptor_kernel sha_crypto second_call
            ?s1 short_buffer)))
          = cache_hits (tcp_ctx ?s1)"
    by (simp_all add: validate_miss [OF miss] outcome_short update_statistics_def)
  from first again count miss flipped hits show ?thesis by blast
qed

text \<open>
  Claim C2, amended. In every state reached from the loaded module by evaluations, whatever
  the crypto allocations gave in each of them, evaluating a buffer twice in succession
  makes the second call a cache hit whenever the two calls compute the same fingerprint
  of the buffer (as they do when the "sha256" transform is allocated in both or in
  neither): it adds exactly 1 to \<open>cache_hits\<close> and returns 0 or 1. When the first call
  misses the cache, the second returns 1 if the first returned a positive value and 0
  otherwise, and the first call adds nothing to \<open>cache_hits\<close> and exactly 1 to
  \<open>validation_count\<close>; when the first call hits the cache, both calls return the same
  cached byte and each adds 1 to \<open>cache_hits\<close>.
\<close>

theorem repeated_call_hits_cache:
  fixes hw ops env tm env' tm' d
  defines "st \<equiv> validate_all (tcp_loaded hw) ops"
  defines "first \<equiv> tcp_validate_descriptor_kernel env tm st d"
  defines "second \<equiv> tcp_validate_descriptor_kernel env' tm' (snd first) d"
  assumes same: "compute_descriptor_hash env' d = compute_descriptor_hash env d"
  shows "tcp_cache_lookup (tcp_cache (snd first)) (compute_descriptor_hash env' d) \<noteq> None
       \<and> cache_hits (tcp_ctx (snd second)) = cache_hits (tcp_ctx (snd first)) + 1
       \<and> (fst second = 0 \<or> fst second = 1)
       \<and> (tcp_cache_lookup (tcp_cache st) (compute_descriptor_hash env d) = None
            \<longrightarrow>
            fst second = (if fst first > 0 then 1 else 0)
            \<and> cache_hits (tcp_ctx (snd first)) = cache_hits (tcp_ctx st)
            \<and> validation_count (tcp_ctx (snd first)) = validation_count (tcp_ctx st) + 1)
       \<and> (tcp_cache_lookup (tcp_cache st) (compute_descriptor_hash env d) \<noteq> None
            \<longrightarrow>
            fst second = fst first
            \<and> cache_hits (tcp_ctx (snd first)) = cache_hits (tcp_ctx st) + 1)"
proof -
  have inv: "cache_ok st" "decisions_binary st"
    unfolding st_def
    using validate_all_invariants [OF loaded_cache_ok loaded_decisions_binary] by blast+
  show ?thesis
  proof (cases "tcp_cache_lookup (tcp_cache st) (compute_descriptor_hash env d)")
    case None
    have f: "first = (validation_outcome env (tcp_ctx st) d,
            (tcp_cache_store (store_time tm) st (compute_descriptor_hash env d)
               (if validation_outcome env (tcp_ctx st) d > 0 then 1 else 0))
             \<lparr>tcp_ctx := update_statistics tm (validation_outcome env (tcp_ctx st) d) (tcp_ctx st)\<rparr>)"
      unfolding first_def by (rule validate_miss [OF None])
    have s: "second = (if validation_outcome env (tcp_ctx st) d > 0 then 1 else 0,
            (snd first)\<lparr>tcp_ctx := (tcp_ctx (snd first))\<lparr>cache_hits := cache_hits (tcp_ctx (snd first)) + 1\<rparr>\<rparr>)"
      unfolding second_def first_def by (rule revalidate_same_fingerprint [OF inv(1) None same])
    have l: "tcp_cache_lookup (tcp_cache (snd first)) (compute_descriptor_hash env d)
               = Some (if validation_outcome env (tcp_ctx st) d > 0 then 1 else 0)"
      using lookup_after_miss [OF inv(1) None] by (simp add: f)
    show ?thesis
      using None by (simp add: s l same) (simp add: f update_statistics_def)
  next
    case (Some c)
    have f: "first = (uint c, st\<lparr>tcp_ctx := (tcp_ctx st)\<lparr>cache_hits := cache_hits (tcp_ctx st) + 1\<rparr>\<rparr>)"
      unfolding first_def by (rule validate_hit [OF Some])
    have l: "tcp_cache_lookup (tcp_cache (snd first)) (compute_descriptor_hash env' d) = Some c"
      using Some by (simp add: f same)
    have s: "second = (uint c, (snd first)\<lparr>tcp_ctx := (tcp_ctx (snd first))\<lparr>cache_hits := cache_hits (tcp_ctx (snd first)) + 1\<rparr>\<rparr>)"
      unfolding second_def by (rule validate_hit [OF l])
    have "c = 0 \<or> c = 1" using hit_is_binary [OF inv(2) Some] .
    then show ?thesis
      using Some by (auto simp: s l) (simp_all add: f)
  qed
qed

theorem repeated_call_hits_cache_witness:
  "compute_descriptor_hash crc_failing short_buffer = compute_descriptor_hash no_crypto short_buffer
   \<and> tcp_cache_lookup (tcp_cache (tcp_loaded basic_hw))
       (compute_descriptor_hash no_crypto short_buffer) = None
   \<and> fst (tcp_validate_descriptor_kernel no_crypto first_call (tcp_loaded basic_hw)
         short_buffer) = - EINVAL
   \<and> fst (tcp_validate_descriptor_kernel crc_failing second_call
        (snd (tcp_validate_descriptor_kernel no_crypto first_call (tcp_loaded basic_hw)
            short_buffer))
        short_buffer) = 0
   \<and> compute_descriptor_hash no_crypto classical_example
       = compute_descriptor_hash crc_failing classical_example
   \<and> tcp_cache_lookup
        (tcp_cache (validate_all (tcp_loaded basic_hw)
           [(no_crypto, first_call, classical_example)]))
        (compute_descriptor_hash crc_failing classical_example) \<noteq> None
   \<and> fst (tcp_validate_descriptor_kernel no_crypto third_call
        (snd (tcp_validate_descriptor_kernel crc_failing second_call
           (validate_all (tcp_loaded basic_hw) [(no_crypto, first_call, classical_example)])
           classical_example))
        classical_example)
      = fst (tcp_validate_descriptor_kernel crc_failing second_call
           (validate_all (tcp_loaded basic_hw) [(no_crypto, first_call, classical_example)])
           classical_example)"
proof -
  have same1: "compute_descriptor_hash crc_failing short_buffer
      = compute_descriptor_hash no_crypto short_buffer"
    by (rule same_transform_same_fingerprint) (simp add: crc_failing_def no_crypto_def)
  have same2: "compute_descriptor_hash no_crypto classical_example
      = compute_descriptor_hash crc_failing classical_example"
    by (rule same_transform_same_fingerprint) (simp add: crc_failing_def no_crypto_def)
  have miss: "tcp_cache_lookup (tcp_cache (tcp_loaded basic_hw))
       (compute_descriptor_hash no_crypto short_buffer) = None"
    by (rule loaded_miss_short)
  have first: "fst (tcp_validate_descriptor_kernel no_crypto first_call (tcp_loaded basic_hw)
         short_buffer) = - EINVAL"
    by (simp add: validate_miss [OF miss] outcome_short)
  note on_miss = repeated_call_hits_cache [where env = no_crypto and env' = crc_failing
      and hw = basic_hw and ops = "[]" and tm = first_call and tm' = second_call
      and d = short_buffer, unfolded validate_all.simps(1), OF same1]
  from on_miss miss
  have "fst (tcp_validate_descriptor_kernel crc_failing second_call
        (snd (tcp_validate_descriptor_kernel no_crypto first_call (tcp_loaded basic_hw)
            short_buffer))
        short_buffer)
      = (if fst (tcp_validate_descriptor_kernel no_crypto first_call (tcp_loaded basic_hw)
                   short_buffer) > 0
         then 1 else 0)"
    by blast
  then have second: "fst (tcp_validate_descriptor_kernel crc_failing second_call
        (snd (tcp_validate_descriptor_kernel no_crypto first_call (tcp_loaded basic_hw)
            short_buffer))
        short_buffer) = 0"
    by (simp add: first EINVAL_def)
  let ?warm = "validate_all (tcp_loaded basic_hw) [(no_crypto, first_call, classical_example)]"
  have "tcp_cache_lookup (tcp_cache ?warm) (compute_descriptor_hash no_crypto classical_example)
          = Some 1"
    using lookup_after_miss [OF loaded_cache_ok loaded_miss_classical]
    by (simp add: validate_miss [OF loaded_miss_classical] outcome_classical)
  then have hit: "tcp_cache_lookup (tcp_cache ?warm)
      (compute_descriptor_hash crc_failing classical_example) \<noteq> None"
    by (simp add: same2 [symmetric])
  note on_hit = repeated_call_hits_cache [where env = crc_failing and env' = no_crypto
      and hw = basic_hw and ops = "[(no_crypto, first_call, classical_example)]"
      and tm = second_call and tm' = third_call and d = classical_example, OF same2]
  from on_hit hit
  have same: "fst (tcp_validate_descriptor_kernel no_crypto third_call
        (snd (tcp_validate_descriptor_kernel crc_failing second_call ?warm classical_example))
        classical_example)
      = fst (tcp_validate_descriptor_kernel crc_failing second_call ?warm classical_example)"
    by blast
  from same1 miss first second same2 hit same show ?thesis by blast
qed

subsection \<open>C3: loading a module without privilege\<close>

text \<open>
  Claim C3 as stated fails. With \<open>security_level = 0\<close> the call for \<open>init_module\<close>
  (175 on x86-64) by a caller with uid 1000 in the initial namespaces returns \<open>-EPERM\<close>,
  and no security event is counted: the context check fails before the Critical flag is
  looked at. And with \<open>tcp_state.enabled\<close> cleared the same call returns 0 at
  \<open>security_level = 2\<close>.
\<close>

theorem module_load_counterexample:
  "regs_syscall_nr 175 = NR_init_module x86_64_syscalls
   \<and> fst (tcp_analyze_syscall x86_64_syscalls
          (tcp_state_loaded\<lparr>security_level := 0\<rparr>) unprivileged_caller 175) = - EPERM
   \<and> security_events (stats (snd (tcp_analyze_syscall x86_64_syscalls
          (tcp_state_loaded\<lparr>security_level := 0\<rparr>) unprivileged_caller 175))) = 0
   \<and> fst (tcp_analyze_syscall x86_64_syscalls
          (tcp_state_loaded\<lparr>enabled := False, security_level := 2\<rparr>)
          unprivileged_caller 175) = 0"
  by (simp add: tcp_analyze_syscall_def regs_syscall_nr_def x86_64_syscalls_def tcp_state_loaded_def
      tcp_find_descriptor_def tcp_descriptors_def unprivileged_caller_def tcp_check_context_def
      count_total_check_def count_blocked_operation_def
      TCP_FLAG_SAFE_def TCP_FLAG_CRITICAL_def TCP_FLAG_KERNEL_def TCP_FLAG_DESTRUCTIVE_def
      TCP_CTX_ADMIN_def TCP_CTX_KERNEL_def TCP_CTX_USER_def)

text \<open>
  Claim C3, amended. While the monitor is enabled, the call for the module-load number by a
  caller that is neither root nor in a container returns \<open>-EPERM\<close> at every security
  level, 0 and 2 included; it counts one check and one blocked operation and no security
  event. (The numbers of \<open>unlink\<close> and \<open>execve\<close> differ from that of
  \<open>init_module\<close>, as they do in every system call table.)
\<close>

theorem module_load_unprivileged_denied:
  assumes "enabled st"
    and "NR_unlink nrs \<noteq> NR_init_module nrs" and "NR_execve nrs \<noteq> NR_init_module nrs"
    and "regs_syscall_nr orig_ax = NR_init_module nrs"
    and "uid_val cur \<noteq> 0" and "nsproxy_is_init cur"
  shows "tcp_analyze_syscall nrs st cur orig_ax =
           (- EPERM,
            st\<lparr>stats := (stats st)\<lparr>total_checks := total_checks (stats st) + 1,
                 blocked_operations := blocked_operations (stats st) + 1\<rparr>\<rparr>)"
  using assms(1,4) module_load_context_fails [OF assms(5,6), of nrs]
  by (simp add: tcp_analyze_syscall_def find_module_load [OF assms(2,3)] module_load_not_safe
      count_total_check_def count_blocked_operation_def)

theorem module_load_unprivileged_denied_witness:
  "enabled (tcp_state_loaded\<lparr>security_level := 2\<rparr>)
   \<and> regs_syscall_nr 175 = NR_init_module x86_64_syscalls
   \<and> uid_val unprivileged_caller \<noteq> 0 \<and> nsproxy_is_init unprivileged_caller
   \<and> fst (tcp_analyze_syscall x86_64_syscalls
          (tcp_state_loaded\<lparr>security_level := 2\<rparr>) unprivileged_caller 175) = - EPERM"
proof -
  have en: "enabled (tcp_state_loaded\<lparr>security_level := 2\<rparr>)" by (simp add: tcp_state_loaded_def)
  have d1: "NR_unlink x86_64_syscalls \<noteq> NR_init_module x86_64_syscalls"
    and d2: "NR_execve x86_64_syscalls \<noteq> NR_init_module x86_64_syscalls"
    by (simp_all add: x86_64_syscalls_def)
  have nr: "regs_syscall_nr 175 = NR_init_module x86_64_syscalls"
    by (simp add: regs_syscall_nr_def x86_64_syscalls_def)
  have u: "uid_val unprivileged_caller \<noteq> 0" and c: "nsproxy_is_init unprivileged_caller"
    by (simp_all add: unprivileged_caller_def)
  have "fst (tcp_analyze_syscall x86_64_syscalls (tcp_state_loaded\<lparr>security_level := 2\<rparr>)
          unprivileged_caller 175) = - EPERM"
    by (simp only: module_load_unprivileged_denied [OF en d1 d2 nr u c] fst_conv)
  with en nr u c show ?thesis by blast
qed

subsection \<open>C4: buffers of a wrong length\<close>

text \<open>
  Claim C4 as stated fails. After \<open>classical_example\<close> has been evaluated and allowed,
  the buffer of its first 8 bytes, whose fallback fingerprint is the same, is answered from
  the cache with 1.
\<close>

theorem wrong_length_counterexample:
  "length (take 8 classical_example) \<noteq> 24 \<and> length (take 8 classical_example) \<noteq> 32
   \<and> fst (tcp_validate_descriptor_kernel no_crypto second_call
        (snd (tcp_validate_descriptor_kernel no_crypto first_call (tcp_loaded basic_hw)
            classical_example))
        (take 8 classical_example)) = 1"
proof -
  have same: "compute_descriptor_hash no_crypto (take 8 classical_example)
                = compute_descriptor_hash no_crypto classical_example"
    by (simp add: compute_descriptor_hash_def classical_example_def no_crypto_def)
  let ?s1 = "snd (tcp_validate_descriptor_kernel no_crypto first_call (tcp_loaded basic_hw) classical_example)"
  have "tcp_cache_lookup (tcp_cache ?s1) (compute_descriptor_hash no_crypto classical_example) = Some 1"
    using lookup_after_miss [OF loaded_cache_ok loaded_miss_classical]
    by (simp add: validate_miss [OF loaded_miss_classical] outcome_classical)
  then have "tcp_cache_lookup (tcp_cache ?s1) (compute_descriptor_hash no_crypto (take 8 classical_example)) = Some 1"
    by (simp only: same)
  then show ?thesis by (simp add: validate_hit) (simp add: classical_example_def no_crypto_def)
qed

text \<open>
  Claim C4, amended. On a cache miss, a buffer whose length is neither 24 nor 32 is rejected
  with \<open>-EINVAL\<close>, and a security violation is counted.
\<close>

theorem wrong_length_rejected_on_miss:
  assumes "tcp_cache_lookup (tcp_cache st) (compute_descriptor_hash env d) = None"
    and "length d \<noteq> 24" and "length d \<noteq> 32"
  shows "fst (tcp_validate_descriptor_kernel env tm st d) = - EINVAL
       \<and> security_violations (tcp_ctx (snd (tcp_validate_descriptor_kernel env tm st d)))
           = security_violations (tcp_ctx st) + 1"
  using assms(2,3)
  by (simp add: validate_miss [OF assms(1)] validation_outcome_def update_statistics_def EINVAL_def)

theorem wrong_length_rejected_on_miss_witness:
  "tcp_cache_lookup (tcp_cache (tcp_loaded basic_hw)) (compute_descriptor_hash no_crypto short_buffer) = None
   \<and> length short_buffer \<noteq> 24 \<and> length short_buffer \<noteq> 32
   \<and> fst (tcp_validate_descriptor_kernel no_crypto first_call (tcp_loaded basic_hw) short_buffer) = - EINVAL"
proof -
  have l: "length short_buffer \<noteq> 24" "length short_buffer \<noteq> 32" by (simp_all add: short_buffer_def)
  from wrong_length_rejected_on_miss [OF loaded_miss_short l, where tm = first_call]
  have "fst (tcp_validate_descriptor_kernel no_crypto first_call (tcp_loaded basic_hw) short_buffer) = - EINVAL"
    by blast
  with loaded_miss_short l show ?thesis by blast
qed

subsection \<open>C5: the checksum of a Classical descriptor\<close>




subsection \<open>C6: the version of a Quantum descriptor\<close>

text \<open>
  Claim C6 as stated fails. The second evaluation of \<open>quantum_v2_example\<close> (right magic,
  version 2) is a cache hit and returns the plain 0, not \<open>-EINVAL\<close>.
\<close>

theorem quantum_version_counterexample:
  "length quantum_v2_example = 32 \<and> quantum_magic quantum_v2_example = TCP_MAGIC_QUANTUM
   \<and> quantum_version quantum_v2_example = 2
   \<and> fst (tcp_validate_descriptor_kernel no_crypto second_call
        (snd (tcp_validate_descriptor_kernel no_crypto first_call (tcp_loaded basic_hw)
            quantum_v2_example))
        quantum_v2_example) = 0"
  by (simp add: revalidate_after_miss [OF loaded_cache_ok loaded_miss_quantum_v2]
      outcome_quantum_v2 EINVAL_def)
    (simp add: quantum_v2_example_def no_crypto_def classical_magic_def
        classical_security_flags_def classical_checksum_def quantum_magic_def quantum_version_def
        get_u32_def get_u16_def TCP_MAGIC_CLASSICAL_def TCP_MAGIC_QUANTUM_def)

text \<open>
  Claim C6, amended. On a cache miss, a 32-byte buffer with the Quantum magic and a version
  below 3 is rejected with \<open>-EINVAL\<close>, and a security violation is counted.
\<close>

theorem quantum_version_rejected_on_miss:
  assumes "tcp_cache_lookup (tcp_cache st) (compute_descriptor_hash env d) = None"
    and "length d = 32" and "quantum_magic d = TCP_MAGIC_QUANTUM" and "quantum_version d < 3"
  shows "fst (tcp_validate_descriptor_kernel env tm st d) = - EINVAL
       \<and> security_violations (tcp_ctx (snd (tcp_validate_descriptor_kernel env tm st d)))
           = security_violations (tcp_ctx st) + 1"
  using assms(2,3,4)
  by (simp add: validate_miss [OF assms(1)] validation_outcome_def update_statistics_def EINVAL_def)

theorem quantum_version_rejected_on_miss_witness:
  "tcp_cache_lookup (tcp_cache (tcp_loaded basic_hw))
       (compute_descriptor_hash no_crypto quantum_v2_example) = None
   \<and> length quantum_v2_example = 32 \<and> quantum_magic quantum_v2_example = TCP_MAGIC_QUANTUM
   \<and> quantum_version quantum_v2_example < 3
   \<and> fst (tcp_validate_descriptor_kernel no_crypto first_call (tcp_loaded basic_hw)
         quantum_v2_example) = - EINVAL"
proof -
  have len: "length quantum_v2_example = 32" by (simp add: quantum_v2_example_def no_crypto_def)
  have magic: "quantum_magic quantum_v2_example = TCP_MAGIC_QUANTUM"
    by (simp add: quantum_v2_example_def no_crypto_def classical_magic_def
        classical_security_flags_def classical_checksum_def quantum_magic_def quantum_version_def
        get_u32_def get_u16_def TCP_MAGIC_CLASSICAL_def TCP_MAGIC_QUANTUM_def)
  have ver: "quantum_version quantum_v2_example < 3"
    by (simp add: quantum_v2_example_def quantum_version_def)
  from quantum_version_rejected_on_miss
         [OF loaded_miss_quantum_v2 len magic ver, where tm = first_call]
  have "fst (tcp_validate_descriptor_kernel no_crypto first_call (tcp_loaded basic_hw)
         quantum_v2_example) = - EINVAL"
    by blast
  with loaded_miss_quantum_v2 [of basic_hw] len magic ver show ?thesis by blast
qed

subsection \<open>C7: unknown system calls\<close>

text \<open>
  Claim C7 as stated fails. \<open>tcp_analyze_syscall\<close> first tests \<open>tcp_state.enabled\<close>, which
  \<open>tcp_kernel_exit\<close> clears before it unregisters the probe. With the flag cleared the call
  for \<open>write\<close> (1 on x86-64, not in the table) returns 0 and leaves every counter as it
  was: \<open>fast_path_hits\<close> stays 0.
\<close>

theorem unknown_syscall_counterexample:
  "regs_syscall_nr 1 \<noteq> NR_unlink x86_64_syscalls
   \<and> regs_syscall_nr 1 \<noteq> NR_execve x86_64_syscalls
   \<and> regs_syscall_nr 1 \<noteq> NR_init_module x86_64_syscalls
   \<and> regs_syscall_nr 1 \<noteq> NR_getpid x86_64_syscalls
   \<and> tcp_analyze_syscall x86_64_syscalls (tcp_state_loaded\<lparr>enabled := False\<rparr>)
         unprivileged_caller 1
       = (0, tcp_state_loaded\<lparr>enabled := False\<rparr>)
   \<and> fast_path_hits (stats (tcp_state_loaded\<lparr>enabled := False\<rparr>)) = 0
   \<and> fast_path_hits (stats (snd (tcp_analyze_syscall x86_64_syscalls
         (tcp_state_loaded\<lparr>enabled := False\<rparr>) unprivileged_caller 1))) = 0"
  by (simp add: tcp_analyze_syscall_def regs_syscall_nr_def x86_64_syscalls_def
      tcp_state_loaded_def)

text \<open>
  Claim C7, amended. A system call number that is not in the table is allowed (the result
  is 0) for every caller and every security level. While the monitor is enabled the call
  adds exactly 1 to \<open>total_checks\<close> and to \<open>fast_path_hits\<close> and changes nothing else;
  while it is disabled the call changes nothing.
\<close>

theorem unknown_syscall_fast_path:
  assumes "regs_syscall_nr orig_ax \<notin> syscall_nr ` set (tcp_descriptors nrs)"
  shows "tcp_analyze_syscall nrs st cur orig_ax =
           (0, if enabled st
               then st\<lparr>stats := (stats st)\<lparr>total_checks := total_checks (stats st) + 1,
                                         fast_path_hits := fast_path_hits (stats st) + 1\<rparr>\<rparr>
               else st)"
  using assms
  by (simp add: tcp_analyze_syscall_def tcp_find_descriptor_def find_in_table_absent
      count_total_check_def count_fast_path_hit_def)

theorem unknown_syscall_fast_path_witness:
  "enabled tcp_state_loaded
   \<and> regs_syscall_nr 1 \<noteq> NR_unlink x86_64_syscalls
   \<and> regs_syscall_nr 1 \<noteq> NR_execve x86_64_syscalls
   \<and> regs_syscall_nr 1 \<noteq> NR_init_module x86_64_syscalls
   \<and> regs_syscall_nr 1 \<noteq> NR_getpid x86_64_syscalls
   \<and> tcp_analyze_syscall x86_64_syscalls tcp_state_loaded unprivileged_caller 1 =
       (0, tcp_state_loaded\<lparr>stats := (stats tcp_state_loaded)\<lparr>total_checks := 1,
                                                              fast_path_hits := 1\<rparr>\<rparr>)"
proof -
  have en: "enabled tcp_state_loaded" by (simp add: tcp_state_loaded_def)
  have ne: "regs_syscall_nr 1 \<noteq> NR_unlink x86_64_syscalls"
    "regs_syscall_nr 1 \<noteq> NR_execve x86_64_syscalls"
    "regs_syscall_nr 1 \<noteq> NR_init_module x86_64_syscalls"
    "regs_syscall_nr 1 \<noteq> NR_getpid x86_64_syscalls"
    by (simp_all add: regs_syscall_nr_def x86_64_syscalls_def)
  then have absent: "regs_syscall_nr 1 \<notin> syscall_nr ` set (tcp_descriptors x86_64_syscalls)"
    by (simp add: tcp_descriptors_def)
  have "tcp_analyze_syscall x86_64_syscalls tcp_state_loaded unprivileged_caller 1 =
       (0, tcp_state_loaded\<lparr>stats := (stats tcp_state_loaded)\<lparr>total_checks := 1,
                                                              fast_path_hits := 1\<rparr>\<rparr>)"
    using en by (simp add: unknown_syscall_fast_path [OF absent]) (simp add: tcp_state_loaded_def)
  with en ne show ?thesis by blast
qed

subsection \<open>C8: eviction from the ring\<close>

text \<open>
  Claim C8. After \<open>TCP_CACHE_SIZE + 1\<close> stores with pairwise different 8-byte
  fingerprints into the cache of the loaded module, the lookup of the first fingerprint
  misses and the lookup of each later one returns the result stored with it; the ring
  still has \<open>TCP_CACHE_SIZE\<close> entries and its head is 1. And in every state with a ring of
  \<open>TCP_CACHE_SIZE\<close> entries and a head below \<open>TCP_CACHE_SIZE\<close>, a store writes its entry
  into the slot at the head, leaves the other slots as they are and advances the head by
  one modulo \<open>TCP_CACHE_SIZE\<close>.
\<close>

theorem ring_eviction:
  assumes len: "length xs = TCP_CACHE_SIZE + 1"
    and dist: "distinct (map fst xs)"
    and eight: "\<forall>x\<in>set xs. length (fst x) = 8"
  shows "tcp_cache_lookup (tcp_cache (store_all (tcp_loaded hw) xs)) (fst (hd xs)) = None
       \<and> (\<forall>x\<in>set (tl xs).
            tcp_cache_lookup (tcp_cache (store_all (tcp_loaded hw) xs)) (fst x)
              = Some (fst (snd x)))
       \<and> length (tcp_cache (store_all (tcp_loaded hw) xs)) = TCP_CACHE_SIZE
       \<and> tcp_cache_head (store_all (tcp_loaded hw) xs) = 1
       \<and> (cache_ok st \<longrightarrow>
            tcp_cache (tcp_cache_store now st fp res) =
              (tcp_cache st)[unat (tcp_cache_head st) :=
                 \<lparr>descriptor_hash = take 8 fp, validation_result = res,
                  timestamp = now\<rparr>]
            \<and> unat (tcp_cache_head (tcp_cache_store now st fp res)) =
                (unat (tcp_cache_head st) + 1) mod TCP_CACHE_SIZE
            \<and> cache_ok (tcp_cache_store now st fp res))"
proof -
  let ?S = "store_all (tcp_loaded hw) xs"
  define ys where "ys = last xs # tl (butlast xs)"
  have n: "1 < TCP_CACHE_SIZE" by (simp add: TCP_CACHE_SIZE_def)
  have ne: "xs \<noteq> []" using len by auto
  have ltl: "length (tl xs) = TCP_CACHE_SIZE" using len by simp
  have tne: "tl xs \<noteq> []"
  proof
    assume "tl xs = []"
    then have "length (tl xs) = 0" by (simp del: length_tl)
    then show False using ltl n by simp
  qed
  have cache: "tcp_cache ?S = map entry_of ys"
    unfolding ys_def by (rule overflow_cache [OF len])
  have "length ys = TCP_CACHE_SIZE" using len n by (simp add: ys_def)
  then have lenS: "length (tcp_cache ?S) = TCP_CACHE_SIZE" by (simp add: cache)
  have lk: "tcp_cache_lookup (tcp_cache ?S) h = cache_scan (map entry_of ys) h" for h
    using lookup_full [OF lenS, of h] by (simp only: cache)
  have xs_eq: "xs = hd xs # tl xs" using ne by simp
  have tl_eq: "tl xs = tl (butlast xs) @ [last xs]"
    using ne tne by (metis append_butlast_last_id butlast_tl last_tl)
  have "set (tl xs) = set (tl (butlast xs) @ [last xs])" by (rule arg_cong [OF tl_eq])
  then have set_ys: "set ys = set (tl xs)" by (auto simp: ys_def)
  have dist_tl: "distinct (map fst (tl xs))" using dist by (simp add: distinct_tl map_tl)
  have "distinct (map fst (tl (butlast xs) @ [last xs]))"
    using dist_tl tl_eq by metis
  then have dist_ys: "distinct (map fst ys)" by (auto simp: ys_def)
  have sub: "set (tl xs) \<subseteq> set xs" using ne by (simp add: list.set_sel(2) subsetI)
  have take8: "take 8 (fst x) = fst x" if "x \<in> set ys" for x
  proof -
    have "x \<in> set xs" using that sub set_ys by blast
    then have "length (fst x) = 8" using eight by blast
    then show ?thesis by simp
  qed
  have map8: "map (\<lambda>x. take 8 (fst x)) ys = map fst ys"
    using take8 by (intro map_cong) auto
  have hd_notin: "fst (hd xs) \<notin> fst ` set (tl xs)"
    using dist by (subst (asm) xs_eq) simp
  have "(\<lambda>x. take 8 (fst x)) ` set ys = fst ` set ys"
    using take8 by (intro image_cong) auto
  then have img: "(\<lambda>x. take 8 (fst x)) ` set ys = fst ` set (tl xs)"
    by (simp only: set_ys)
  have "take 8 (fst (hd xs)) = fst (hd xs)" using eight ne by simp
  then have "take 8 (fst (hd xs)) \<notin> (\<lambda>x. take 8 (fst x)) ` set ys"
    using hd_notin by (simp only: img) simp
  then have "cache_scan (map entry_of ys) (fst (hd xs)) = None"
    by (rule cache_scan_entries_miss)
  then have miss: "tcp_cache_lookup (tcp_cache ?S) (fst (hd xs)) = None"
    by (simp only: lk)
  have hits: "\<forall>x\<in>set (tl xs). tcp_cache_lookup (tcp_cache ?S) (fst x) = Some (fst (snd x))"
  proof
    fix x assume "x \<in> set (tl xs)"
    then have "(fst x, fst (snd x), snd (snd x)) \<in> set ys" using set_ys by simp
    moreover have "distinct (map (\<lambda>x. take 8 (fst x)) ys)" using dist_ys by (simp only: map8)
    ultimately have "cache_scan (map entry_of ys) (fst x) = Some (fst (snd x))"
      by (intro cache_scan_entries_hit)
    then show "tcp_cache_lookup (tcp_cache ?S) (fst x) = Some (fst (snd x))"
      by (simp only: lk)
  qed
  have step: "cache_ok st \<longrightarrow>
            tcp_cache (tcp_cache_store now st fp res) =
              (tcp_cache st)[unat (tcp_cache_head st) :=
                 \<lparr>descriptor_hash = take 8 fp, validation_result = res,
                  timestamp = now\<rparr>]
            \<and> unat (tcp_cache_head (tcp_cache_store now st fp res)) =
                (unat (tcp_cache_head st) + 1) mod TCP_CACHE_SIZE
            \<and> cache_ok (tcp_cache_store now st fp res)"
    using store_cache_ok [of st now fp res]
    by (simp add: store_cache store_head entry_of_def head_advance cache_ok_def TCP_CACHE_SIZE_def)
  show ?thesis using miss hits lenS overflow_cache(2) [OF len] step by blast
qed

theorem ring_eviction_witness:
  "length ring_stores = TCP_CACHE_SIZE + 1
   \<and> distinct (map fst ring_stores)
   \<and> list_all (\<lambda>x. length (fst x) = 8) ring_stores
   \<and> tcp_cache_lookup (tcp_cache (store_all (tcp_loaded basic_hw) ring_stores))
       (ring_fingerprint 0) = None
   \<and> tcp_cache_lookup (tcp_cache (store_all (tcp_loaded basic_hw) ring_stores))
       (ring_fingerprint 1) = Some 0
   \<and> tcp_cache_lookup (tcp_cache (store_all (tcp_loaded basic_hw) ring_stores))
        (ring_fingerprint TCP_CACHE_SIZE) = Some 1
   \<and> cache_ok (tcp_loaded basic_hw)
   \<and> unat (tcp_cache_head (tcp_cache_store 5 (tcp_loaded basic_hw) (ring_fingerprint 0) 1)) = 1"
proof -
  let ?c = "tcp_cache (store_all (tcp_loaded basic_hw) ring_stores)"
  note r = ring_eviction [OF ring_stores_length ring_stores_distinct ring_stores_eight,
      where hw = basic_hw and st = "tcp_loaded basic_hw" and now = 5 and fp = "ring_fingerprint 0"
        and res = 1]
  have all8: "list_all (\<lambda>x. length (fst x) = 8) ring_stores"
    using ring_stores_eight by (simp add: list_all_iff)
  have "tcp_cache_lookup ?c (fst (hd ring_stores)) = None" using r by blast
  then have first: "tcp_cache_lookup ?c (ring_fingerprint 0) = None"
    by (simp add: ring_stores_hd ring_store_def)
  have hits: "\<And>x. x \<in> set (tl ring_stores) \<Longrightarrow> tcp_cache_lookup ?c (fst x) = Some (fst (snd x))"
    using r by blast
  have "ring_store 1 \<in> set (tl ring_stores)"
    by (rule ring_stores_tl) (simp_all add: TCP_CACHE_SIZE_def)
  from hits [OF this] have second: "tcp_cache_lookup ?c (ring_fingerprint 1) = Some 0"
    by (simp add: ring_store_def)
  have "ring_store TCP_CACHE_SIZE \<in> set (tl ring_stores)"
    by (rule ring_stores_tl) (simp_all add: TCP_CACHE_SIZE_def)
  from hits [OF this] have last: "tcp_cache_lookup ?c (ring_fingerprint TCP_CACHE_SIZE) = Some 1"
    by (simp add: ring_store_def) (simp add: TCP_CACHE_SIZE_def)
  have "unat (tcp_cache_head (tcp_cache_store 5 (tcp_loaded basic_hw) (ring_fingerprint 0) 1))
          = (unat (tcp_cache_head (tcp_loaded basic_hw)) + 1) mod TCP_CACHE_SIZE"
    using r loaded_cache_ok [of basic_hw] by blast
  then have step: "unat (tcp_cache_head (tcp_cache_store 5 (tcp_loaded basic_hw) (ring_fingerprint 0) 1)) = 1"
    by (simp add: tcp_loaded_def TCP_CACHE_SIZE_def)
  from ring_stores_length ring_stores_distinct all8 first second last loaded_cache_ok [of
      basic_hw] step
  show ?thesis by blast
qed

subsection \<open>C9: the statistics report\<close>

text \<open>
  Claim C9. For every state of the counters \<open>tcp_proc_show\<close> produces its report without
  a division by zero, and when \<open>validation_count\<close> is 0 the average time and the cache
  hit rate it reports are both 0.
\<close>

theorem proc_show_no_division_fault:
  "\<exists>r. tcp_proc_show ctx = Some r
       \<and> (validation_count ctx = 0 \<longrightarrow> shown_avg_time_ns r = 0 \<and> shown_cache_hit_rate r = 0)"
  by (cases "validation_count ctx = 0")
    (simp_all add: tcp_proc_show_def u64_div_def word_greater_zero_iff)

theorem proc_show_no_division_fault_witness:
  "validation_count (tcp_ctx (tcp_loaded basic_hw)) = 0
   \<and> (\<exists>r. tcp_proc_show (tcp_ctx (tcp_loaded basic_hw)) = Some r
          \<and> shown_avg_time_ns r = 0 \<and> shown_cache_hit_rate r = 0)"
proof -
  have z: "validation_count (tcp_ctx (tcp_loaded basic_hw)) = 0" by (simp add: tcp_loaded_def)
  from proc_show_no_division_fault [of "tcp_ctx (tcp_loaded basic_hw)"] z
  have "\<exists>r. tcp_proc_show (tcp_ctx (tcp_loaded basic_hw)) = Some r
          \<and> shown_avg_time_ns r = 0 \<and> shown_cache_hit_rate r = 0"
    by blast
  with z show ?thesis by blast
qed

subsection \<open>C10: what a cache hit returns\<close>

text \<open>
  Claim C10 as stated fails, in two ways. The 8-byte prefix of \<open>classical_example\<close> is
  rejected with \<open>-EINVAL\<close> by its first evaluation. \<open>TCP_CACHE_SIZE\<close> evaluations of
  other buffers then overwrite every slot of the ring, its entry included;
  \<open>classical_example\<close>, whose fallback fingerprint is the same 8 bytes, is evaluated next,
  misses the cache, is allowed and cached with 1. A later evaluation of the prefix hits
  that entry and is reported as 1, not as 0.

  And without any eviction: \<open>classical_example\<close> is allowed and cached under its fallback
  fingerprint by an evaluation to which the "sha256" transform is not available. The
  prefix is then rejected with \<open>-EINVAL\<close> by an evaluation in which the transform is
  allocated, so under the first 8 bytes of its digest. The evaluation of the prefix that
  follows has no transform again, computes the fallback fingerprint, hits the entry of
  \<open>classical_example\<close> and is reported as 1.
\<close>

theorem later_hit_counterexample:
  "fst (tcp_validate_descriptor_kernel no_crypto first_call (tcp_loaded basic_hw)
          (take 8 classical_example)) = - EINVAL
   \<and> tcp_cache_lookup
        (tcp_cache (validate_all (tcp_loaded basic_hw)
           (eviction_run @ [(no_crypto, second_call, classical_example)])))
        (compute_descriptor_hash no_crypto (take 8 classical_example)) = Some 1
   \<and> fst (tcp_validate_descriptor_kernel no_crypto second_call
        (validate_all (tcp_loaded basic_hw)
           (eviction_run @ [(no_crypto, second_call, classical_example)]))
        (take 8 classical_example)) = 1
   \<and> fst (tcp_validate_descriptor_kernel sha_crypto second_call
        (validate_all (tcp_loaded basic_hw) [(no_crypto, first_call, classical_example)])
        (take 8 classical_example)) = - EINVAL
   \<and> tcp_cache_lookup
        (tcp_cache (validate_all (tcp_loaded basic_hw)
           [(no_crypto, first_call, classical_example),
            (sha_crypto, second_call, take 8 classical_example)]))
        (compute_descriptor_hash no_crypto (take 8 classical_example)) = Some 1
   \<and> fst (tcp_validate_descriptor_kernel no_crypto third_call
        (validate_all (tcp_loaded basic_hw)
           [(no_crypto, first_call, classical_example),
            (sha_crypto, second_call, take 8 classical_example)])
        (take 8 classical_example)) = 1"
proof -
  let ?S = "validate_all (tcp_loaded basic_hw) eviction_run"
  let ?S2 = "validate_all (tcp_loaded basic_hw)
      (eviction_run @ [(no_crypto, second_call, classical_example)])"
  have ok: "cache_ok ?S"
    using validate_all_invariants [OF loaded_cache_ok loaded_decisions_binary] by blast
  have miss0: "tcp_cache_lookup (tcp_cache (tcp_loaded basic_hw))
      (compute_descriptor_hash no_crypto (take 8 classical_example)) = None"
    by (simp add: loaded_lookup fallback_hash_prefix)
  have first: "fst (tcp_validate_descriptor_kernel no_crypto first_call (tcp_loaded basic_hw)
          (take 8 classical_example)) = - EINVAL"
    by (simp add: validate_miss [OF miss0] validation_outcome_def) (simp add:
        classical_example_def no_crypto_def)
  have miss: "tcp_cache_lookup (tcp_cache ?S) (compute_descriptor_hash no_crypto classical_example) = None"
    by (simp only: fallback_hash_prefix eviction_run_evicts)
  have S2: "?S2 = snd (tcp_validate_descriptor_kernel no_crypto second_call ?S classical_example)"
    by (simp add: validate_all_append)
  have "tcp_cache_lookup (tcp_cache ?S2) (compute_descriptor_hash no_crypto classical_example) = Some 1"
    using lookup_after_miss [OF ok miss]
    by (simp add: S2 validate_miss [OF miss] outcome_classical)
  then have hit: "tcp_cache_lookup (tcp_cache ?S2)
      (compute_descriptor_hash no_crypto (take 8 classical_example)) = Some 1"
    by (simp only: fallback_hash_prefix)
  then have late: "fst (tcp_validate_descriptor_kernel no_crypto second_call ?S2
      (take 8 classical_example)) = 1"
    by (simp add: validate_hit)
  let ?p = "take 8 classical_example"
  let ?A = "snd (tcp_validate_descriptor_kernel no_crypto first_call (tcp_loaded basic_hw)
      classical_example)"
  let ?B = "snd (tcp_validate_descriptor_kernel sha_crypto second_call ?A ?p)"
  let ?eF = "entry_of (compute_descriptor_hash no_crypto classical_example, 1, store_time first_call)"
  have A: "validate_all (tcp_loaded basic_hw) [(no_crypto, first_call, classical_example)] = ?A"
    and B: "validate_all (tcp_loaded basic_hw)
           [(no_crypto, first_call, classical_example), (sha_crypto, second_call, ?p)] = ?B"
    by simp_all
  have sha: "compute_descriptor_hash sha_crypto ?p = [0xBD, 0x65, 0xCE, 0x3F, 0x61, 0xE1, 0x4B, 0x35]"
    by (simp add: compute_descriptor_hash_def sha_crypto_def sha256_table_def classical_example_def)
  have other: "tcp_cache_lookup (tcp_cache (tcp_loaded basic_hw))
      (compute_descriptor_hash sha_crypto ?p) = None"
    by (simp add: loaded_lookup sha)
  have diff: "take 8 (compute_descriptor_hash no_crypto classical_example)
      \<noteq> take 8 (compute_descriptor_hash sha_crypto ?p)"
    by (simp add: sha fallback_hash_prefix)
  have missA: "tcp_cache_lookup (tcp_cache ?A) (compute_descriptor_hash sha_crypto ?p) = None"
    using loaded_cache_ok loaded_miss_classical other diff by (rule miss_after_miss)
  have "length ?p = 8" by (simp add: classical_example_def)
  then have out: "validation_outcome sha_crypto ctx ?p = - EINVAL" for ctx
    by (simp add: validation_outcome_def)
  have rejected: "fst (tcp_validate_descriptor_kernel sha_crypto second_call ?A ?p) = - EINVAL"
    by (simp add: validate_miss [OF missA] out)
  have cA: "tcp_cache ?A = (tcp_cache (tcp_loaded basic_hw))[0 := ?eF]"
    and hA: "tcp_cache_head ?A = 1"
    by (simp_all add: validate_miss [OF loaded_miss_classical] outcome_classical store_cache
        store_head) (simp_all add: tcp_loaded_def)
  have cB: "tcp_cache ?B = (tcp_cache ?A)[1 :=
      entry_of (compute_descriptor_hash sha_crypto ?p, 0, store_time second_call)]"
    by (simp add: validate_miss [OF missA] out store_cache hA EINVAL_def)
  have len: "length (tcp_cache (tcp_loaded basic_hw)) = 10000"
    by (simp add: tcp_loaded_def TCP_CACHE_SIZE_def)
  have slot0: "tcp_cache ?B ! 0 = ?eF"
    by (simp add: cB cA len)
  have neB: "tcp_cache ?B \<noteq> []"
  proof
    assume "tcp_cache ?B = []"
    then have "length (tcp_cache ?B) = 0" by simp
    then show False by (simp add: cB cA len)
  qed
  have "hash_matches (tcp_cache ?B ! 0) (compute_descriptor_hash no_crypto ?p)"
    by (simp add: slot0 hash_matches_def entry_of_def fallback_hash_prefix)
  from lookup_first_slot [OF neB this]
  have hitB: "tcp_cache_lookup (tcp_cache ?B) (compute_descriptor_hash no_crypto ?p) = Some 1"
    by (simp add: slot0 entry_of_def)
  then have lateB: "fst (tcp_validate_descriptor_kernel no_crypto third_call ?B ?p) = 1"
    by (simp add: validate_hit)
  from first hit late rejected hitB lateB show ?thesis
    by (simp only: A B)
qed

text \<open>
  Claim C10, amended. In every state reached from the loaded module by evaluations,
  whatever the crypto allocations gave in each of them, every cached decision byte is 0
  or 1; a cache hit returns that byte, so 0 or 1 and never a negative error number. A
  buffer that an evaluation rejects with a negative result is reported as 0 by the
  evaluation of the same buffer that follows if that computes the same fingerprint, and by
  every later evaluation of it that computes the same fingerprint and hits the cache,
  provided that no buffer that passes validation was evaluated in between with that
  fingerprint.
\<close>

theorem cached_decision_is_binary:
  fixes hw ops env tm env' tm' d later ctx
  defines "st \<equiv> validate_all (tcp_loaded hw) ops"
  defines "rejected \<equiv> snd (tcp_validate_descriptor_kernel env tm st d)"
  shows "(\<forall>e\<in>set (tcp_cache st). validation_result e = 0 \<or> validation_result e = 1)
       \<and> (\<forall>c. tcp_cache_lookup (tcp_cache st) (compute_descriptor_hash env d) = Some c
              \<longrightarrow>
              fst (tcp_validate_descriptor_kernel env tm st d) = uint c
              \<and> (fst (tcp_validate_descriptor_kernel env tm st d) = 0
                   \<or> fst (tcp_validate_descriptor_kernel env tm st d) = 1))
       \<and> (fst (tcp_validate_descriptor_kernel env tm st d) < 0
            \<and> compute_descriptor_hash env' d = compute_descriptor_hash env d
            \<longrightarrow>
              tcp_cache_lookup (tcp_cache rejected) (compute_descriptor_hash env' d) = Some 0
              \<and> fst (tcp_validate_descriptor_kernel env' tm' rejected d) = 0)
       \<and> (fst (tcp_validate_descriptor_kernel env tm st d) < 0
            \<and> compute_descriptor_hash env' d = compute_descriptor_hash env d
            \<and> (\<forall>op\<in>set later.
                  take 8 (compute_descriptor_hash (fst op) (snd (snd op)))
                    = take 8 (compute_descriptor_hash env d)
                  \<longrightarrow> validation_outcome (fst op) ctx (snd (snd op)) \<le> 0)
            \<and> tcp_cache_lookup (tcp_cache (validate_all rejected later))
                  (compute_descriptor_hash env' d) \<noteq> None
            \<longrightarrow> fst (tcp_validate_descriptor_kernel env' tm' (validate_all rejected later) d) = 0)"
proof -
  have inv: "cache_ok st" "decisions_binary st"
    unfolding st_def
    using validate_all_invariants [OF loaded_cache_ok loaded_decisions_binary] by blast+
  have bytes: "\<forall>e\<in>set (tcp_cache st). validation_result e = 0 \<or> validation_result e = 1"
    using inv(2) by (simp add: decisions_binary_def)
  have hit: "fst (tcp_validate_descriptor_kernel env tm st d) = uint c
              \<and> (fst (tcp_validate_descriptor_kernel env tm st d) = 0
                   \<or> fst (tcp_validate_descriptor_kernel env tm st d) = 1)"
    if "tcp_cache_lookup (tcp_cache st) (compute_descriptor_hash env d) = Some c" for c
    using hit_is_binary [OF inv(2) that] by (auto simp: validate_hit [OF that])
  have again: "tcp_cache_lookup (tcp_cache rejected) (compute_descriptor_hash env' d) = Some 0
              \<and> fst (tcp_validate_descriptor_kernel env' tm' rejected d) = 0"
    if neg: "fst (tcp_validate_descriptor_kernel env tm st d) < 0"
      and same: "compute_descriptor_hash env' d = compute_descriptor_hash env d"
  proof (cases "tcp_cache_lookup (tcp_cache st) (compute_descriptor_hash env d)")
    case None
    then have out: "validation_outcome env (tcp_ctx st) d < 0"
      using neg by (simp add: validate_miss)
    have "tcp_cache_lookup (tcp_cache rejected) (compute_descriptor_hash env d) = Some 0"
      unfolding rejected_def
      using lookup_after_miss [OF inv(1) None] out by (simp add: validate_miss [OF None])
    then have l: "tcp_cache_lookup (tcp_cache rejected) (compute_descriptor_hash env' d) = Some 0"
      by (simp only: same)
    then show ?thesis by (simp add: validate_hit [OF l])
  next
    case (Some c)
    then show ?thesis using neg by (simp add: validate_hit)
  qed
  have late: "fst (tcp_validate_descriptor_kernel env' tm' (validate_all rejected later) d) = 0"
    if neg: "fst (tcp_validate_descriptor_kernel env tm st d) < 0"
      and same: "compute_descriptor_hash env' d = compute_descriptor_hash env d"
      and quiet: "\<forall>op\<in>set later.
                  take 8 (compute_descriptor_hash (fst op) (snd (snd op)))
                    = take 8 (compute_descriptor_hash env d)
                  \<longrightarrow> validation_outcome (fst op) ctx (snd (snd op)) \<le> 0"
      and found: "tcp_cache_lookup (tcp_cache (validate_all rejected later))
                  (compute_descriptor_hash env' d) \<noteq> None"
  proof -
    have "denies_fingerprint (compute_descriptor_hash env d) rejected"
      unfolding rejected_def using inv(1) neg by (rule rejection_denies_fingerprint)
    then have "denies_fingerprint (compute_descriptor_hash env d) (validate_all rejected later)"
      using quiet by (rule denies_fingerprint_run)
    then have den: "denies_fingerprint (compute_descriptor_hash env' d) (validate_all rejected later)"
      by (simp only: same)
    from found obtain c where c: "tcp_cache_lookup (tcp_cache (validate_all rejected later))
                  (compute_descriptor_hash env' d) = Some c" by blast
    have "c = 0" using den c by (rule denies_fingerprint_hit)
    then show ?thesis by (simp add: validate_hit [OF c])
  qed
  show ?thesis using bytes hit again late by blast
qed

theorem cached_decision_is_binary_witness:
  "fst (tcp_validate_descriptor_kernel no_crypto first_call (tcp_loaded basic_hw) short_buffer) < 0
   \<and> compute_descriptor_hash crc_failing short_buffer = compute_descriptor_hash no_crypto short_buffer
   \<and> validation_outcome no_crypto (tcp_ctx (tcp_loaded basic_hw)) short_buffer \<le> 0
   \<and> tcp_cache_lookup
        (tcp_cache (validate_all
           (snd (tcp_validate_descriptor_kernel no_crypto first_call (tcp_loaded basic_hw)
               short_buffer))
           [(no_crypto, second_call, short_buffer)]))
        (compute_descriptor_hash crc_failing short_buffer) \<noteq> None
   \<and> fst (tcp_validate_descriptor_kernel crc_failing third_call
        (validate_all
           (snd (tcp_validate_descriptor_kernel no_crypto first_call (tcp_loaded basic_hw)
               short_buffer))
           [(no_crypto, second_call, short_buffer)])
        short_buffer) = 0"
proof -
  let ?rejected = "snd (tcp_validate_descriptor_kernel no_crypto first_call (tcp_loaded basic_hw) short_buffer)"
  have neg: "fst (tcp_validate_descriptor_kernel no_crypto first_call (tcp_loaded basic_hw) short_buffer) < 0"
    by (simp add: validate_miss [OF loaded_miss_short] outcome_short EINVAL_def)
  have same: "compute_descriptor_hash crc_failing short_buffer
      = compute_descriptor_hash no_crypto short_buffer"
    by (rule same_transform_same_fingerprint) (simp add: crc_failing_def no_crypto_def)
  have out: "validation_outcome no_crypto (tcp_ctx (tcp_loaded basic_hw)) short_buffer \<le> 0"
    by (simp add: outcome_short EINVAL_def)
  then have quiet: "\<forall>op\<in>set [(no_crypto, second_call, short_buffer)].
      take 8 (compute_descriptor_hash (fst op) (snd (snd op)))
        = take 8 (compute_descriptor_hash no_crypto short_buffer)
      \<longrightarrow> validation_outcome (fst op) (tcp_ctx (tcp_loaded basic_hw)) (snd (snd op)) \<le> 0"
    by simp
  have "tcp_cache_lookup (tcp_cache ?rejected) (compute_descriptor_hash no_crypto short_buffer) = Some 0"
    using lookup_after_miss [OF loaded_cache_ok loaded_miss_short]
    by (simp add: validate_miss [OF loaded_miss_short] outcome_short EINVAL_def)
  then have "tcp_cache_lookup
        (tcp_cache (validate_all ?rejected [(no_crypto, second_call, short_buffer)]))
        (compute_descriptor_hash no_crypto short_buffer) \<noteq> None"
    by (simp add: validate_hit)
  then have found: "tcp_cache_lookup
        (tcp_cache (validate_all ?rejected [(no_crypto, second_call, short_buffer)]))
        (compute_descriptor_hash crc_failing short_buffer) \<noteq> None"
    by (simp add: same)
  note inst = cached_decision_is_binary [where env = no_crypto and env' = crc_failing
      and hw = basic_hw and ops = "[]" and tm = first_call and tm' = third_call
      and d = short_buffer and later = "[(no_crypto, second_call, short_buffer)]"
      and ctx = "tcp_ctx (tcp_loaded basic_hw)",
      unfolded validate_all.simps(1)]
  from inst neg same quiet found
  have "fst (tcp_validate_descriptor_kernel crc_failing third_call
        (validate_all ?rejected [(no_crypto, second_call, short_buffer)]) short_buffer) = 0"
    by blast
  with neg same out found show ?thesis by blast
qed

end
